theory Spec2Isabelle
  imports Main "HOL-Library.Sublist" "HOL-Library.AList"
begin

section \<open>Data model (src/index.js, lines 6-30)\<close>

text \<open>
  The JSDoc typedef \<open>TagBlockerTag\<close>. A JavaScript string is a sequence of code units and is
  modelled as a \<open>string\<close>; \<open>number|null\<close> is an \<open>int option\<close>, \<open>string|null\<close> a
  \<open>string option\<close>. The placement codes are the numbers of the source:
  0 = user input, 1 = AI response, 2 = system prompt. The field \<open>id\<close> is named
  \<open>id_tag\<close> because \<open>id\<close> is the identity function of HOL.
\<close>

record TagBlockerTag =
  id_tag :: string
  startTag :: string
  endTag :: string
  enabled :: bool
  minDepth :: "int option"
  maxDepth :: "int option"
  markdownOnly :: bool
  promptOnly :: bool
  runOnEdit :: bool
  placement :: "int list"
  regexPattern :: "string option"
  replaceString :: string
  scriptName :: string
  substituteRegex :: int

text \<open>
  The typedef \<open>TagBlockerExcludedPrompt\<close>; its field \<open>text\<close> is named \<open>text_prompt\<close>
  and its field \<open>id\<close> is named \<open>id_prompt\<close>.
\<close>

record TagBlockerExcludedPrompt =
  id_prompt :: string
  text_prompt :: string
  excluded :: bool
  source :: string

text \<open>
  \<open>extension_settings.tag_blocker\<close>. The module's first statements create the object when
  it is missing and iterate over \<open>tags\<close>, so \<open>tags\<close> is an array whenever a function below
  runs. \<open>excludedPrompts\<close> may be missing (\<open>None\<close>): the matcher reads it as
  \<open>excludedPrompts || []\<close>.
\<close>

record tag_blocker =
  tags :: "TagBlockerTag list"
  excludedPrompts :: "TagBlockerExcludedPrompt list option"
  autoRefresh :: bool
  debugMode :: bool

definition SystemPrompt :: int where "SystemPrompt = 2"

section \<open>Built-ins of the host language on strings\<close>

text \<open>\<open>text.includes(s)\<close>: \<open>s\<close> occurs in \<open>text\<close> as a contiguous run of code units.\<close>

definition includes_str :: "string \<Rightarrow> string \<Rightarrow> bool" where
  "includes_str text s = sublist s text"

text \<open>\<open>arr.includes(x)\<close> on an array of numbers.\<close>

definition includes_arr :: "int list \<Rightarrow> int \<Rightarrow> bool" where
  "includes_arr arr x = (x \<in> set arr)"

section \<open>The matcher: shouldApplyRule (lines 773-795)\<close>

text \<open>The \<open>for ... of\<close> loop over the exclusion list, returning at the first hit.\<close>

fun excluded_hit :: "TagBlockerExcludedPrompt list \<Rightarrow> string \<Rightarrow> bool" where
  "excluded_hit [] text = False"
| "excluded_hit (prompt # rest) text =
     (if excluded prompt \<and> includes_str text (text_prompt prompt) then True
      else excluded_hit rest text)"

definition shouldApplyRule ::
  "tag_blocker \<Rightarrow> TagBlockerTag \<Rightarrow> string \<Rightarrow> int option \<Rightarrow> int \<Rightarrow> bool" where
  "shouldApplyRule cfg tag text depth plc =
     (if \<not> enabled tag then False
      else if \<not> includes_arr (placement tag) plc then False
      else if (case depth of
                 None \<Rightarrow> False
               | Some d \<Rightarrow>
                   (case minDepth tag of None \<Rightarrow> False | Some lo \<Rightarrow> d < lo) \<or>
                   (case maxDepth tag of None \<Rightarrow> False | Some hi \<Rightarrow> d > hi)) then False
      else if excluded_hit (case excludedPrompts cfg of None \<Rightarrow> [] | Some ps \<Rightarrow> ps) text
        then False
      else True)"

section \<open>The rewriter\<close>

subsection \<open>The regular-expression engine of the host\<close>

text \<open>
  \<open>new RegExp(body, flags)\<close> and \<open>text.replace(regex, replaceStr)\<close> belong to the host
  language. For patterns written by the user they are parameters of the model:
  \<open>RegExp\<close> gives \<open>None\<close> where the constructor throws a SyntaxError, and \<open>replace\<close>
  is total on strings.
\<close>

record 'r engine =
  RegExp :: "string \<Rightarrow> string \<Rightarrow> 'r option"
  replace :: "string \<Rightarrow> 'r \<Rightarrow> string \<Rightarrow> string"

text \<open>
  \<open>s.lastIndexOf(c)\<close>: the index of the last occurrence of \<open>c\<close>, or \<open>-1\<close>.
  \<open>s.substring(a, b)\<close> clamps both indices to \<open>0..length\<close> and swaps them when
  \<open>a > b\<close>; \<open>s.substring(a)\<close> runs to the end of the string.
\<close>

fun lastIndexOf_from :: "char \<Rightarrow> string \<Rightarrow> int \<Rightarrow> int \<Rightarrow> int" where
  "lastIndexOf_from c [] i found = found"
| "lastIndexOf_from c (x # xs) i found =
     lastIndexOf_from c xs (i + 1) (if x = c then i else found)"

definition lastIndexOf :: "string \<Rightarrow> char \<Rightarrow> int" where
  "lastIndexOf s c = lastIndexOf_from c s 0 (- 1)"

definition substring :: "string \<Rightarrow> int \<Rightarrow> int \<Rightarrow> string" where
  "substring s a b =
     (let n = int (length s);
          a' = max 0 (min a n);
          b' = max 0 (min b n);
          lo = min a' b';
          hi = max a' b'
      in take (nat (hi - lo)) (drop (nat lo) s))"

definition substring_from :: "string \<Rightarrow> int \<Rightarrow> string" where
  "substring_from s a = substring s a (int (length s))"

definition startsWith :: "string \<Rightarrow> string \<Rightarrow> bool" where
  "startsWith s p = prefix p s"

subsection \<open>processWithRegex (lines 178-199)\<close>

text \<open>
  Lines 181-191: the pattern body and the flags taken from \<open>regexStr\<close>, as the pair
  (body, flags).
\<close>

definition regex_parts :: "string \<Rightarrow> string \<times> string" where
  "regex_parts regexStr =
     (let lastSlashIndex = lastIndexOf regexStr CHR ''/''
      in if lastSlashIndex > 0
         then (substring regexStr 1 lastSlashIndex, substring_from regexStr (lastSlashIndex + 1))
         else if startsWith regexStr ''/'' then (substring_from regexStr 1, [])
         else (regexStr, []))"

text \<open>
  The whole body is inside \<open>try\<close>: a SyntaxError of the constructor is caught and the
  input text is returned.
\<close>

definition processWithRegex :: "'r engine \<Rightarrow> string \<Rightarrow> string \<Rightarrow> string \<Rightarrow> string" where
  "processWithRegex eng text regexStr replaceStr =
     (case regex_parts regexStr of
        (body, flags) \<Rightarrow>
          (case RegExp eng body flags of
             None \<Rightarrow> text
           | Some regex \<Rightarrow> replace eng text regex replaceStr))"

subsection \<open>processWithTags (lines 209-218)\<close>

text \<open>
  \<open>escapeRegex\<close> is imported from the host application's \<open>utils.js\<close>; it puts a backslash
  before every character that is pattern syntax, so that the escaped tag matches the tag's
  code units one by one. The pattern built at line 214 is therefore: the literal start tag,
  one capture group \<open>(.*?)\<close>, the literal end tag, with the flags \<open>g\<close> (all matches) and
  \<open>s\<close> (the dot matches every code unit, newlines too). The functions below are the
  engine's backtracking search specialised to this pattern.

  \<open>lazy_until e t\<close> is \<open>(.*?)\<close> followed by the literal \<open>e\<close>, tried at the start of
  \<open>t\<close>: the group takes as few code units as possible. The result is the captured text and
  what follows the end tag.
\<close>

fun lazy_until :: "string \<Rightarrow> string \<Rightarrow> (string \<times> string) option" where
  "lazy_until e [] = (if e = [] then Some ([], []) else None)"
| "lazy_until e (c # cs) =
     (if prefix e (c # cs) then Some ([], drop (length e) (c # cs))
      else map_option (\<lambda>(cap, rest). (c # cap, rest)) (lazy_until e cs))"

text \<open>The whole pattern tried at the start of \<open>t\<close>.\<close>

definition match_here :: "string \<Rightarrow> string \<Rightarrow> string \<Rightarrow> (string \<times> string) option" where
  "match_here s e t = (if prefix s t then lazy_until e (drop (length s) t) else None)"

text \<open>
  One call of the engine's \<open>exec\<close> on the text \<open>t\<close> that starts at \<open>lastIndex\<close>: the
  start positions are tried from left to right. The result is the text skipped before the
  match, the capture, and the text after the match.
\<close>

fun exec_from :: "string \<Rightarrow> string \<Rightarrow> string \<Rightarrow> (string \<times> string \<times> string) option" where
  "exec_from s e [] = map_option (\<lambda>(cap, rest). ([], cap, rest)) (match_here s e [])"
| "exec_from s e (c # cs) =
     (case match_here s e (c # cs) of
        Some (cap, rest) \<Rightarrow> Some ([], cap, rest)
      | None \<Rightarrow> map_option (\<lambda>(pre, cap, rest). (c # pre, cap, rest)) (exec_from s e cs))"

text \<open>
  \<open>GetSubstitution\<close> of the language standard, for a pattern with one capture group that
  always takes part in the match and no named group: in the replacement string \<open>$$\<close> is a
  dollar sign, \<open>$&\<close> the matched text, \<open>$`\<close> the text before the match, \<open>$'\<close> the
  text after it, \<open>$1\<close> and \<open>$01\<close> the capture; every other code unit, a \<open>$\<close> before
  anything else included, stands for itself.
\<close>

fun getSubstitution :: "string \<Rightarrow> string \<Rightarrow> string \<Rightarrow> string \<Rightarrow> string \<Rightarrow> string" where
  "getSubstitution matched preceding following cap [] = []"
| "getSubstitution matched preceding following cap [c] = [c]"
| "getSubstitution matched preceding following cap (c # d # r) =
     (if c \<noteq> CHR ''$'' then c # getSubstitution matched preceding following cap (d # r)
      else if d = CHR ''$'' then CHR ''$'' # getSubstitution matched preceding following cap r
      else if d = CHR ''&'' then matched @ getSubstitution matched preceding following cap r
      else if d = CHR 0x60 then preceding @ getSubstitution matched preceding following cap r
      else if d = CHR 0x27 then following @ getSubstitution matched preceding following cap r
      else if d = CHR ''1'' then cap @ getSubstitution matched preceding following cap r
      else if d = CHR ''0'' then
        (case r of
           [] \<Rightarrow> [c, d]
         | x # r' \<Rightarrow>
             if x = CHR ''1'' then cap @ getSubstitution matched preceding following cap r'
             else c # d # getSubstitution matched preceding following cap (x # r'))
      else c # getSubstitution matched preceding following cap (d # r))"

text \<open>
  \<open>text.replace(regex, replaceStr)\<close> with the \<open>g\<close> flag: \<open>exec\<close> is called until it
  fails; after an empty match \<open>lastIndex\<close> moves one code unit forward, and a
  \<open>lastIndex\<close> beyond the end of the text ends the search. \<open>preceding\<close> is the text in front
  of \<open>lastIndex\<close>.
\<close>

function replace_all :: "string \<Rightarrow> string \<Rightarrow> string \<Rightarrow> string \<Rightarrow> string \<Rightarrow> string" where
  "replace_all s e replaceStr preceding t =
     (case exec_from s e t of
        None \<Rightarrow> t
      | Some (pre, cap, rest) \<Rightarrow>
          if s @ cap @ e = [] then
            (case rest of
               [] \<Rightarrow> pre @ getSubstitution [] (preceding @ pre) rest cap replaceStr
             | c # cs \<Rightarrow>
                 pre @ getSubstitution [] (preceding @ pre) rest cap replaceStr @
                 c # replace_all s e replaceStr (preceding @ pre @ [c]) cs)
          else
            pre @ getSubstitution (s @ cap @ e) (preceding @ pre) rest cap replaceStr @
            replace_all s e replaceStr (preceding @ pre @ s @ cap @ e) rest)"
  by pat_completeness auto

lemma lazy_until_decomp: "lazy_until e t = Some (cap, rest) \<Longrightarrow> t = cap @ e @ rest"
proof (induction t arbitrary: cap)
  case Nil
  then show ?case by (simp split: if_splits)
next
  case (Cons c cs)
  show ?case
  proof (cases "prefix e (c # cs)")
    case True
    with Cons.prems have "cap = []" "rest = drop (length e) (c # cs)" by simp_all
    moreover from True have "c # cs = e @ drop (length e) (c # cs)"
      by (metis append_eq_conv_conj prefix_def)
    ultimately show ?thesis by simp
  next
    case False
    with Cons.prems obtain cap' where "lazy_until e cs = Some (cap', rest)" "cap = c # cap'"
      by auto
    with Cons.IH show ?thesis by simp
  qed
qed

lemma match_here_decomp: "match_here s e t = Some (cap, rest) \<Longrightarrow> t = s @ cap @ e @ rest"
  unfolding match_here_def
  by (auto split: if_splits dest!: lazy_until_decomp simp: prefix_def)

lemma exec_from_decomp:
  "exec_from s e t = Some (pre, cap, rest) \<Longrightarrow> t = pre @ s @ cap @ e @ rest"
proof (induction t arbitrary: pre)
  case Nil
  then show ?case by (auto dest: match_here_decomp)
next
  case (Cons c cs)
  show ?case
  proof (cases "match_here s e (c # cs)")
    case None
    with Cons.prems obtain pre' where "exec_from s e cs = Some (pre', cap, rest)" "pre = c # pre'"
      by auto
    with Cons.IH show ?thesis by simp
  next
    case (Some a)
    with Cons.prems have "match_here s e (c # cs) = Some (cap, rest)" "pre = []"
      by (auto split: prod.splits)
    then show ?thesis by (simp add: match_here_decomp)
  qed
qed

termination replace_all
  by (relation "measure (\<lambda>(s, e, replaceStr, preceding, t). length t)")
     (auto dest!: exec_from_decomp)

declare replace_all.simps [simp del]

definition processWithTags :: "string \<Rightarrow> string \<Rightarrow> string \<Rightarrow> string \<Rightarrow> string" where
  "processWithTags text startTag' endTag' replaceStr = replace_all startTag' endTag' replaceStr [] text"

section \<open>The rule engine: applyTagBlockRules (lines 804-844)\<close>

text \<open>
  The \<open>for ... of\<close> loop over \<open>tags\<close> with the accumulator \<open>result\<close>. \<open>wasModified\<close>
  and the calls of \<open>logDebug\<close> only write to the console and are left out. The test
  \<open>if (tag.regexPattern)\<close> holds for a string that is not empty.
\<close>

fun rules_loop ::
  "tag_blocker \<Rightarrow> 'r engine \<Rightarrow> int option \<Rightarrow> int \<Rightarrow> TagBlockerTag list \<Rightarrow> string \<Rightarrow> string" where
  "rules_loop cfg eng depth plc [] result = result"
| "rules_loop cfg eng depth plc (tag # rest) result =
     (if \<not> shouldApplyRule cfg tag result depth plc then rules_loop cfg eng depth plc rest result
      else
        let processedText =
          (case regexPattern tag of
             None \<Rightarrow> processWithTags result (startTag tag) (endTag tag) (replaceString tag)
           | Some p \<Rightarrow>
               if p \<noteq> [] then processWithRegex eng result p (replaceString tag)
               else processWithTags result (startTag tag) (endTag tag) (replaceString tag))
        in if processedText \<noteq> result then rules_loop cfg eng depth plc rest processedText
           else rules_loop cfg eng depth plc rest result)"

definition applyTagBlockRules ::
  "tag_blocker \<Rightarrow> 'r engine \<Rightarrow> string \<Rightarrow> int option \<Rightarrow> int \<Rightarrow> string" where
  "applyTagBlockRules cfg eng text depth plc = rules_loop cfg eng depth plc (tags cfg) text"

section \<open>Import of a persisted script: importScriptToTag (lines 129-152)\<close>

text \<open>
  The object read from an imported file. A field that is \<open>undefined\<close> is \<open>None\<close>, and
  so is a field that is \<open>null\<close> where the code treats both alike (\<open>||\<close>, \<open>!!\<close>,
  \<open>Array.isArray\<close>, the negation of \<open>disabled\<close>, and the depth bounds, whose default is
  \<open>null\<close>). For \<open>promptOnly\<close>, \<open>runOnEdit\<close> and \<open>substituteRegex\<close>, which are
  tested with \<open>!== undefined\<close> and whose type in the rule has no \<open>null\<close>, \<open>None\<close> is
  \<open>undefined\<close> only: a script with \<open>null\<close> in one of them is not a value of this
  record. The fields carry the suffix \<open>_script\<close> where the rule record has a field of the
  same name.
\<close>

record scriptData =
  id_script :: "string option"
  scriptName_script :: "string option"
  findRegex :: "string option"
  replaceString_script :: "string option"
  startTag_script :: "string option"
  endTag_script :: "string option"
  minDepth_script :: "int option"
  maxDepth_script :: "int option"
  markdownOnly_script :: "bool option"
  promptOnly_script :: "bool option"
  runOnEdit_script :: "bool option"
  placement_script :: "int list option"
  substituteRegex_script :: "int option"
  disabled :: "bool option"

text \<open>\<open>x || d\<close> on an optional string: the default replaces a missing and an empty string.\<close>

definition or_default :: "string option \<Rightarrow> string \<Rightarrow> string" where
  "or_default x d = (case x of None \<Rightarrow> d | Some v \<Rightarrow> if v = [] then d else v)"

text \<open>
  \<open>uuid\<close> is the value of the host's \<open>uuidv4()\<close>; \<open>defaultName\<close> is the string literal
  of line 133.
\<close>

definition importScriptToTag :: "string \<Rightarrow> string \<Rightarrow> scriptData \<Rightarrow> TagBlockerTag" where
  "importScriptToTag uuid defaultName sd =
     \<lparr> id_tag = or_default (id_script sd) uuid,
       startTag = [],
       endTag = [],
       enabled = (case disabled sd of None \<Rightarrow> True | Some d \<Rightarrow> \<not> d),
       minDepth = minDepth_script sd,
       maxDepth = maxDepth_script sd,
       markdownOnly = (case markdownOnly_script sd of None \<Rightarrow> False | Some b \<Rightarrow> b),
       promptOnly = (case promptOnly_script sd of None \<Rightarrow> True | Some b \<Rightarrow> b),
       runOnEdit = (case runOnEdit_script sd of None \<Rightarrow> True | Some b \<Rightarrow> b),
       placement = (case placement_script sd of None \<Rightarrow> [2] | Some ps \<Rightarrow> ps),
       regexPattern =
         (case findRegex sd of None \<Rightarrow> None | Some p \<Rightarrow> if p = [] then None else Some p),
       replaceString = or_default (replaceString_script sd) [],
       scriptName = or_default (scriptName_script sd) defaultName,
       substituteRegex = (case substituteRegex_script sd of None \<Rightarrow> 0 | Some n \<Rightarrow> n) \<rparr>"

text \<open>
  The check of \<open>onImportScriptClick\<close> (line 482) that a file must pass before
  \<open>importScriptToTag\<close> is called on it.
\<close>

definition import_accepts :: "scriptData \<Rightarrow> bool" where
  "import_accepts sd =
     (\<not> (or_default (findRegex sd) [] = [] \<and>
         (or_default (startTag_script sd) [] = [] \<or> or_default (endTag_script sd) [] = [])))"

text \<open>
  The two modes of a rule, as the engine and the editors tell them apart: a rule is in Regex
  mode when \<open>regexPattern\<close> is a string that is not empty, and a TagPair rule has no pattern
  and two tags that are not empty.
\<close>

definition is_Regex :: "TagBlockerTag \<Rightarrow> bool" where
  "is_Regex tag = (case regexPattern tag of None \<Rightarrow> False | Some p \<Rightarrow> p \<noteq> [])"

definition is_TagPair :: "TagBlockerTag \<Rightarrow> bool" where
  "is_TagPair tag = (regexPattern tag = None \<and> startTag tag \<noteq> [] \<and> endTag tag \<noteq> [])"

section \<open>The interception of fetch (lines 862-969)\<close>

subsection \<open>JSON values\<close>

text \<open>
  The value \<open>JSON.parse\<close> returns. An object is the list of its properties; a property
  that is absent reads as \<open>undefined\<close>, which is \<open>None\<close> below. Only whether a number is
  zero is ever observed.
\<close>

datatype json =
    JNull
  | JBool bool
  | JNum int
  | JStr string
  | JArr "json list"
  | JObj "(string \<times> json) list"

datatype js_error = SyntaxError | TypeError

text \<open>
  \<open>v.k\<close>: reading a property of \<open>null\<close> throws a TypeError; a boolean, a number, a
  string and an array have none of the properties read here.
\<close>

definition get_prop :: "json \<Rightarrow> string \<Rightarrow> js_error + json option" where
  "get_prop v k =
     (case v of
        JNull \<Rightarrow> Inl TypeError
      | JObj ps \<Rightarrow> Inr (map_of ps k)
      | _ \<Rightarrow> Inr None)"

text \<open>\<open>v.k = x\<close> on an object.\<close>

definition set_prop :: "json \<Rightarrow> string \<Rightarrow> json \<Rightarrow> json" where
  "set_prop v k x = (case v of JObj ps \<Rightarrow> JObj (AList.update k x ps) | _ \<Rightarrow> v)"

text \<open>The truth value of \<open>if (v)\<close>.\<close>

definition truthy :: "json option \<Rightarrow> bool" where
  "truthy v =
     (case v of
        None \<Rightarrow> False
      | Some JNull \<Rightarrow> False
      | Some (JBool b) \<Rightarrow> b
      | Some (JNum n) \<Rightarrow> n \<noteq> 0
      | Some (JStr s) \<Rightarrow> s \<noteq> []
      | Some (JArr xs) \<Rightarrow> True
      | Some (JObj ps) \<Rightarrow> True)"

definition then_err :: "js_error + 'a \<Rightarrow> ('a \<Rightarrow> js_error + 'b) \<Rightarrow> js_error + 'b" where
  "then_err r f = (case r of Inl err \<Rightarrow> Inl err | Inr x \<Rightarrow> f x)"

subsection \<open>The rule engine called on a value of any type\<close>

text \<open>
  The fields \<open>prompt\<close>, \<open>text\<close> and \<open>input\<close> and the \<open>text\<close> of a content part are
  passed to \<open>applyTagBlockRules\<close> when they are truthy, whatever their type. On a value that
  is not a string the loop of \<open>applyTagBlockRules\<close> behaves as follows. In
  \<open>shouldApplyRule\<close>, \<open>text.includes(prompt.text)\<close> is the membership test of an array
  and a TypeError on a number, \<open>true\<close> or an object, which have no method \<open>includes\<close>.
  \<open>processWithRegex\<close> catches the TypeError of \<open>text.replace\<close> and returns the value;
  \<open>processWithTags\<close> has no \<open>try\<close> and throws it.
\<close>

fun excluded_hit_dyn :: "TagBlockerExcludedPrompt list \<Rightarrow> json \<Rightarrow> js_error + bool" where
  "excluded_hit_dyn [] v = Inr False"
| "excluded_hit_dyn (prompt # rest) v =
     (if excluded prompt then
        (case v of
           JArr xs \<Rightarrow>
             if JStr (text_prompt prompt) \<in> set xs then Inr True else excluded_hit_dyn rest v
         | _ \<Rightarrow> Inl TypeError)
      else excluded_hit_dyn rest v)"

fun rules_loop_dyn ::
  "tag_blocker \<Rightarrow> int option \<Rightarrow> int \<Rightarrow> TagBlockerTag list \<Rightarrow> json \<Rightarrow> js_error + json" where
  "rules_loop_dyn cfg depth plc [] result = Inr result"
| "rules_loop_dyn cfg depth plc (tag # rest) result =
     (if \<not> enabled tag then rules_loop_dyn cfg depth plc rest result
      else if \<not> includes_arr (placement tag) plc then rules_loop_dyn cfg depth plc rest result
      else if (case depth of
                 None \<Rightarrow> False
               | Some d \<Rightarrow>
                   (case minDepth tag of None \<Rightarrow> False | Some lo \<Rightarrow> d < lo) \<or>
                   (case maxDepth tag of None \<Rightarrow> False | Some hi \<Rightarrow> d > hi))
        then rules_loop_dyn cfg depth plc rest result
      else
        (case excluded_hit_dyn (case excludedPrompts cfg of None \<Rightarrow> [] | Some ps \<Rightarrow> ps) result of
           Inl err \<Rightarrow> Inl err
         | Inr True \<Rightarrow> rules_loop_dyn cfg depth plc rest result
         | Inr False \<Rightarrow>
             if is_Regex tag then rules_loop_dyn cfg depth plc rest result
             else Inl TypeError))"

definition applyTagBlockRules_val ::
  "tag_blocker \<Rightarrow> 'r engine \<Rightarrow> json \<Rightarrow> int option \<Rightarrow> int \<Rightarrow> js_error + json" where
  "applyTagBlockRules_val cfg eng v depth plc =
     (case v of
        JStr text \<Rightarrow> Inr (JStr (applyTagBlockRules cfg eng text depth plc))
      | _ \<Rightarrow> rules_loop_dyn cfg depth plc (tags cfg) v)"

subsection \<open>The fields of the request body (lines 904-956)\<close>

text \<open>\<open>if (body.k) { body.k = applyTagBlockRules(body.k, depth, placement); }\<close>\<close>

definition rewrite_field ::
  "tag_blocker \<Rightarrow> 'r engine \<Rightarrow> string \<Rightarrow> int option \<Rightarrow> int \<Rightarrow> json \<Rightarrow> js_error + json" where
  "rewrite_field cfg eng k depth plc body =
     then_err (get_prop body k) (\<lambda>v.
       if truthy v then
         then_err (applyTagBlockRules_val cfg eng (the v) depth plc) (\<lambda>v'.
           Inr (set_prop body k v'))
       else Inr body)"

text \<open>\<open>msg.role === 'user' ? 0 : (msg.role === 'assistant' ? 1 : 2)\<close>\<close>

definition role_placement :: "json option \<Rightarrow> int" where
  "role_placement role =
     (if role = Some (JStr ''user'') then 0
      else if role = Some (JStr ''assistant'') then 1
      else 2)"

text \<open>
  The callback of \<open>forEach\<close> over the parts of an array content (lines 920-926 and 950-954):
  \<open>if (part.type === 'text' && part.text) part.text = applyTagBlockRules(...)\<close>.
\<close>

definition rewrite_part ::
  "tag_blocker \<Rightarrow> 'r engine \<Rightarrow> int option \<Rightarrow> int \<Rightarrow> json \<Rightarrow> js_error + json" where
  "rewrite_part cfg eng depth plc part =
     then_err (get_prop part ''type'') (\<lambda>ty.
       if ty = Some (JStr ''text'') then rewrite_field cfg eng ''text'' depth plc part
       else Inr part)"

text \<open>\<open>forEach\<close> over an array whose callback may throw: the first exception ends the walk.\<close>

fun forEach_err :: "('a \<Rightarrow> js_error + 'b) \<Rightarrow> 'a list \<Rightarrow> js_error + 'b list" where
  "forEach_err f [] = Inr []"
| "forEach_err f (x # xs) =
     then_err (f x) (\<lambda>y. then_err (forEach_err f xs) (\<lambda>ys. Inr (y # ys)))"

text \<open>The callback of \<open>body.messages.forEach((msg, index) => ...)\<close> (lines 912-929).\<close>

definition rewrite_message ::
  "tag_blocker \<Rightarrow> 'r engine \<Rightarrow> int \<Rightarrow> json \<Rightarrow> js_error + json" where
  "rewrite_message cfg eng index msg =
     then_err (get_prop msg ''content'') (\<lambda>content.
       if truthy content then
         (case the content of
            JStr text \<Rightarrow>
              then_err (get_prop msg ''role'') (\<lambda>role.
                Inr (set_prop msg ''content''
                  (JStr (applyTagBlockRules cfg eng text (Some index) (role_placement role)))))
          | JArr parts \<Rightarrow>
              then_err (get_prop msg ''role'') (\<lambda>role.
                then_err (forEach_err (rewrite_part cfg eng (Some index) (role_placement role)) parts)
                  (\<lambda>parts'. Inr (set_prop msg ''content'' (JArr parts'))))
          | _ \<Rightarrow> Inr msg)
       else Inr msg)"

fun rewrite_messages ::
  "tag_blocker \<Rightarrow> 'r engine \<Rightarrow> int \<Rightarrow> json list \<Rightarrow> js_error + json list" where
  "rewrite_messages cfg eng index [] = Inr []"
| "rewrite_messages cfg eng index (msg # rest) =
     then_err (rewrite_message cfg eng index msg) (\<lambda>msg'.
       then_err (rewrite_messages cfg eng (index + 1) rest) (\<lambda>rest'. Inr (msg' # rest')))"

text \<open>\<open>if (body.messages && Array.isArray(body.messages)) { ... }\<close>\<close>

definition adapt_messages :: "tag_blocker \<Rightarrow> 'r engine \<Rightarrow> json \<Rightarrow> js_error + json" where
  "adapt_messages cfg eng body =
     then_err (get_prop body ''messages'') (\<lambda>ms.
       (case ms of
          Some (JArr msgs) \<Rightarrow>
            then_err (rewrite_messages cfg eng 0 msgs) (\<lambda>msgs'.
              Inr (set_prop body ''messages'' (JArr msgs')))
        | _ \<Rightarrow> Inr body))"

text \<open>\<open>if (body.content) { ... }\<close> (lines 946-956).\<close>

definition adapt_content :: "tag_blocker \<Rightarrow> 'r engine \<Rightarrow> json \<Rightarrow> js_error + json" where
  "adapt_content cfg eng body =
     then_err (get_prop body ''content'') (\<lambda>content.
       if truthy content then
         (case the content of
            JStr text \<Rightarrow>
              Inr (set_prop body ''content'' (JStr (applyTagBlockRules cfg eng text None 0)))
          | JArr items \<Rightarrow>
              then_err (forEach_err (rewrite_part cfg eng None 0) items) (\<lambda>items'.
                Inr (set_prop body ''content'' (JArr items')))
          | _ \<Rightarrow> Inr body)
       else Inr body)"

text \<open>
  Lines 906-956 in the order of the source: \<open>prompt\<close>, \<open>messages\<close>, \<open>text\<close>, \<open>input\<close>,
  \<open>text\<close> once more, \<open>content\<close>.
\<close>

definition adapt_body :: "tag_blocker \<Rightarrow> 'r engine \<Rightarrow> json \<Rightarrow> js_error + json" where
  "adapt_body cfg eng body =
     then_err (rewrite_field cfg eng ''prompt'' None 2 body) (\<lambda>b1.
     then_err (adapt_messages cfg eng b1) (\<lambda>b2.
     then_err (rewrite_field cfg eng ''text'' None 2 b2) (\<lambda>b3.
     then_err (rewrite_field cfg eng ''input'' None 2 b3) (\<lambda>b4.
     then_err (rewrite_field cfg eng ''text'' None 2 b4) (\<lambda>b5.
     adapt_content cfg eng b5)))))"

subsection \<open>The wrapper around fetch\<close>

text \<open>
  \<open>JSON.parse\<close> (\<open>None\<close> where it throws a SyntaxError) and \<open>JSON.stringify\<close> are the
  host's.
\<close>

record json_codec =
  JSON_parse :: "string \<Rightarrow> json option"
  JSON_stringify :: "json \<Rightarrow> string"

datatype fetch_body = BodyString string | BodyFormData | BodyBlob | BodyArrayBuffer | BodyOther

record fetch_options =
  body :: "fetch_body option"

text \<open>
  The first argument of \<open>fetch\<close>: \<open>null\<close> or \<open>undefined\<close>, or a value (a URL string,
  a URL or a Request object) given by the string its \<open>toString()\<close> returns.
\<close>

datatype fetch_resource = Nullish | Resource string

text \<open>The call \<open>originalFetch.call(window, resource, options)\<close> the wrapper ends with.\<close>

datatype fetch_call = OriginalFetch fetch_resource "fetch_options option"

text \<open>The test of lines 868-884 on \<open>resource.toString()\<close>.\<close>

definition is_ai_request :: "string \<Rightarrow> bool" where
  "is_ai_request resourceStr =
     (includes_str resourceStr ''/api/v1/generate'' \<or>
      includes_str resourceStr ''/api/v1/chat'' \<or>
      includes_str resourceStr ''/v1/chat/completions'' \<or>
      includes_str resourceStr ''/v1/completions'' \<or>
      includes_str resourceStr ''/generate'' \<or>
      includes_str resourceStr ''/chat/completions'' \<or>
      includes_str resourceStr ''/completions'' \<or>
      includes_str resourceStr ''/v1/messages'' \<or>
      includes_str resourceStr ''/v1beta/models'' \<or>
      includes_str resourceStr ''localhost'' \<and>
        (includes_str resourceStr ''/generate'' \<or>
         includes_str resourceStr ''/chat'' \<or>
         includes_str resourceStr ''/completion''))"

text \<open>
  The \<open>try\<close> block of lines 887-962 on a truthy \<open>options.body\<close>: the result is the options
  object as it is when the block is left. A body that is not a string leaves it through one
  of the early calls of \<open>originalFetch\<close>; an exception leaves it through \<open>catch\<close>, before
  the assignment of line 959.
\<close>

definition process_body ::
  "json_codec \<Rightarrow> tag_blocker \<Rightarrow> 'r engine \<Rightarrow> fetch_options \<Rightarrow> fetch_body \<Rightarrow> fetch_options" where
  "process_body codec cfg eng options b =
     (case b of
        BodyString str \<Rightarrow>
          (case JSON_parse codec str of
             None \<Rightarrow> options
           | Some parsed \<Rightarrow>
               (case adapt_body cfg eng parsed of
                  Inl err \<Rightarrow> options
                | Inr body' \<Rightarrow> options\<lparr>body := Some (BodyString (JSON_stringify codec body'))\<rparr>))
      | _ \<Rightarrow> options)"

text \<open>
  The wrapper. \<open>resource.toString()\<close> at line 866 is outside the \<open>try\<close>: on \<open>null\<close>
  or \<open>undefined\<close> it throws a TypeError to the caller of \<open>fetch\<close> and the original
  fetch is not called.
\<close>

definition window_fetch ::
  "json_codec \<Rightarrow> tag_blocker \<Rightarrow> 'r engine \<Rightarrow> fetch_resource \<Rightarrow> fetch_options option \<Rightarrow>
     js_error + fetch_call" where
  "window_fetch codec cfg eng resource options =
     (case resource of
        Nullish \<Rightarrow> Inl TypeError
      | Resource resourceStr \<Rightarrow>
          if is_ai_request resourceStr then
            (case options of
               None \<Rightarrow> Inr (OriginalFetch resource options)
             | Some opts \<Rightarrow>
                 (case body opts of
                    None \<Rightarrow> Inr (OriginalFetch resource options)
                  | Some b \<Rightarrow>
                      if b = BodyString [] then Inr (OriginalFetch resource options)
                      else Inr (OriginalFetch resource (Some (process_body codec cfg eng opts b)))))
          else Inr (OriginalFetch resource options))"

section \<open>Notions of the specification and concrete values\<close>

text \<open>
  The rewriter's contract \<open>rewrite(rule, text)\<close>: the choice between the two modes made at
  lines 823-829.
\<close>

definition rewrite :: "'r engine \<Rightarrow> TagBlockerTag \<Rightarrow> string \<Rightarrow> string" where
  "rewrite eng tag text =
     (if is_Regex tag then processWithRegex eng text (the (regexPattern tag)) (replaceString tag)
      else processWithTags text (startTag tag) (endTag tag) (replaceString tag))"

text \<open>
  A span from the start tag \<open>s\<close> through the end tag \<open>e\<close> in the text \<open>t\<close>, and the
  span the specification's pattern matches first: the one that begins leftmost and, among
  those, is the shortest.
\<close>

definition has_span :: "string \<Rightarrow> string \<Rightarrow> string \<Rightarrow> bool" where
  "has_span s e t = (\<exists>pre mid post. t = pre @ s @ mid @ e @ post)"

definition first_span :: "string \<Rightarrow> string \<Rightarrow> string \<Rightarrow> string \<Rightarrow> string \<Rightarrow> string \<Rightarrow> bool" where
  "first_span s e t pre mid post =
     (t = pre @ s @ mid @ e @ post \<and>
      (\<forall>pre' mid' post'. t = pre' @ s @ mid' @ e @ post' \<longrightarrow> length pre \<le> length pre') \<and>
      (\<forall>mid' post'. t = pre @ s @ mid' @ e @ post' \<longrightarrow> length mid \<le> length mid'))"

text \<open>
  The specification's rewriting of a text \<open>t\<close> that stands behind the text \<open>b\<close>: a text
  with no span is left as it is; otherwise the first span is replaced by the expansion of the
  replacement string \<open>r\<close> for that match, the text before the span is kept, and the text
  behind the span is rewritten in the same way. Every span replaced lies behind the one
  replaced before it, so the spans do not overlap.
\<close>

inductive spans_replaced ::
  "string \<Rightarrow> string \<Rightarrow> string \<Rightarrow> string \<Rightarrow> string \<Rightarrow> string \<Rightarrow> bool" where
  no_span: "\<not> has_span s e t \<Longrightarrow> spans_replaced s e r b t t"
| span: "first_span s e t pre mid post \<Longrightarrow>
     spans_replaced s e r (b @ pre @ s @ mid @ e) post out \<Longrightarrow>
     spans_replaced s e r b t (pre @ getSubstitution (s @ mid @ e) (b @ pre) post mid r @ out)"

text \<open>
  A tag-pair rule as \<open>onAddTagClick\<close> stores it (lines 386-401) when the depth fields are
  left empty and the given placement boxes are ticked, and the settings object of lines
  34-39 holding a list of rules.
\<close>

definition tag_rule :: "string \<Rightarrow> string \<Rightarrow> string \<Rightarrow> int list \<Rightarrow> TagBlockerTag" where
  "tag_rule s e r plcs =
     \<lparr> id_tag = ''id'', startTag = s, endTag = e, enabled = True, minDepth = None,
       maxDepth = None, markdownOnly = False, promptOnly = True, runOnEdit = True,
       placement = plcs, regexPattern = None, replaceString = r, scriptName = ''tag'',
       substituteRegex = 0 \<rparr>"

definition settings_of :: "TagBlockerTag list \<Rightarrow> tag_blocker" where
  "settings_of ts = \<lparr> tags = ts, excludedPrompts = Some [], autoRefresh = True, debugMode = False \<rparr>"

text \<open>A regex rule as \<open>onAddRegexClick\<close> stores it (lines 441-456).\<close>

definition regex_rule :: "string \<Rightarrow> string \<Rightarrow> int list \<Rightarrow> TagBlockerTag" where
  "regex_rule p r plcs =
     \<lparr> id_tag = ''id'', startTag = [], endTag = [], enabled = True, minDepth = None,
       maxDepth = None, markdownOnly = False, promptOnly = True, runOnEdit = True,
       placement = plcs, regexPattern = Some p, replaceString = r, scriptName = ''regex'',
       substituteRegex = 0 \<rparr>"

text \<open>A script in tag-pair form, as a file to import may hold it.\<close>

definition tag_script :: scriptData where
  "tag_script =
     \<lparr> id_script = Some ''s1'', scriptName_script = Some ''strip a'', findRegex = None,
       replaceString_script = Some [], startTag_script = Some ''<a>'',
       endTag_script = Some ''</a>'', minDepth_script = None, maxDepth_script = None,
       markdownOnly_script = Some False, promptOnly_script = Some True,
       runOnEdit_script = Some True, placement_script = Some [2],
       substituteRegex_script = Some 0, disabled = Some False \<rparr>"

text \<open>An engine whose constructor rejects every pattern.\<close>

definition rejecting_engine :: "unit engine" where
  "rejecting_engine = \<lparr> RegExp = (\<lambda>body flags. None), replace = (\<lambda>text regex replaceStr. text) \<rparr>"

text \<open>
  Concrete requests: a codec that knows the texts of the values of a table, an endpoint, a
  settings object with one rule that removes \<open><a>...</a>\<close> at every placement, the rule
  import makes of a tag-pair script with the replacement \<open>X\<close>, and bodies with one message
  or one \<open>text\<close> field together with their JSON texts.
\<close>

definition table_codec :: "(string \<times> json) list \<Rightarrow> json_codec" where
  "table_codec tbl =
     \<lparr> JSON_parse = map_of tbl,
       JSON_stringify = (\<lambda>v. case find (\<lambda>(s, v'). v' = v) tbl of None \<Rightarrow> [] | Some (s, v') \<Rightarrow> s) \<rparr>"

definition quoted :: "string \<Rightarrow> string" where
  "quoted s = CHR 0x22 # s @ [CHR 0x22]"

definition url_chat :: string where
  "url_chat = ''http://localhost:5001/v1/chat/completions''"

definition strip_a :: tag_blocker where
  "strip_a = settings_of [tag_rule ''<a>'' ''</a>'' [] [0, 1, 2]]"

definition imported_rule :: TagBlockerTag where
  "imported_rule =
     importScriptToTag ''u1'' ''imported''
       (tag_script\<lparr>replaceString_script := Some ''X'', placement_script := Some [0, 1, 2]\<rparr>)"

definition messages_body :: "string \<Rightarrow> string \<Rightarrow> json" where
  "messages_body role content =
     JObj [(''messages'', JArr [JObj [(''role'', JStr role), (''content'', JStr content)]])]"

definition messages_text :: "string \<Rightarrow> string \<Rightarrow> string" where
  "messages_text role content =
     ''{'' @ quoted ''messages'' @ '':[{'' @ quoted ''role'' @ '':'' @ quoted role @ '','' @
     quoted ''content'' @ '':'' @ quoted content @ ''}]}''"

definition text_body :: "string \<Rightarrow> json" where
  "text_body tx = JObj [(''text'', JStr tx)]"

definition text_text :: "string \<Rightarrow> string" where
  "text_text tx = ''{'' @ quoted ''text'' @ '':'' @ quoted tx @ ''}''"

definition codec_chat :: json_codec where
  "codec_chat =
     table_codec
       [(messages_text ''assistant'' ''x<a>s</a>'', messages_body ''assistant'' ''x<a>s</a>''),
        (messages_text ''assistant'' ''x'', messages_body ''assistant'' ''x''),
        (text_text ''<a<a></a>></a>'', text_body ''<a<a></a>></a>''),
        (text_text ''<a>x</a>'', text_body ''<a>x</a>''),
        (text_text [], text_body []),
        (''null'', JNull),
        (''{'' @ quoted ''messages'' @ '':[null]}'', JObj [(''messages'', JArr [JNull])]),
        (''{'' @ quoted ''prompt'' @ '':5}'', JObj [(''prompt'', JNum 5)]),
        (text_text ''x<a>s</a>'', text_body ''x<a>s</a>''),
        (text_text ''x'', text_body ''x'')]"


section \<open>Properties of the matcher\<close>

lemma excluded_hit_iff:
  "excluded_hit ps text \<longleftrightarrow>
     (\<exists>p \<in> set ps. excluded p \<and> (\<exists>pre post. text = pre @ text_prompt p @ post))"
proof (induction ps)
  case Nil
  show ?case by simp
next
  case (Cons p ps)
  have "includes_str text (text_prompt p) \<longleftrightarrow> (\<exists>pre post. text = pre @ text_prompt p @ post)"
    by (simp add: includes_str_def sublist_def)
  with Cons show ?case by simp blast
qed

text \<open>
  C1. The matcher returns true exactly when the rule is enabled, the placement is a member of
  the rule's placement array, the depth (when it is not null) respects each bound that is not
  null, and no exclusion entry with \<open>excluded = true\<close> has its text as a contiguous,
  case-sensitive substring of the given text.
\<close>

theorem shouldApplyRule_iff:
  "shouldApplyRule cfg tag text depth plc \<longleftrightarrow>
     enabled tag \<and>
     plc \<in> set (placement tag) \<and>
     (\<forall>d. depth = Some d \<longrightarrow>
        (\<forall>lo. minDepth tag = Some lo \<longrightarrow> lo \<le> d) \<and>
        (\<forall>hi. maxDepth tag = Some hi \<longrightarrow> d \<le> hi)) \<and>
     \<not> (\<exists>ps p. excludedPrompts cfg = Some ps \<and> p \<in> set ps \<and> excluded p \<and>
            (\<exists>pre post. text = pre @ text_prompt p @ post))"
proof -
  have ex: "excluded_hit (case excludedPrompts cfg of None \<Rightarrow> [] | Some ps \<Rightarrow> ps) text \<longleftrightarrow>
      (\<exists>ps p. excludedPrompts cfg = Some ps \<and> p \<in> set ps \<and> excluded p \<and>
            (\<exists>pre post. text = pre @ text_prompt p @ post))"
    unfolding excluded_hit_iff by (cases "excludedPrompts cfg") (simp, simp, blast)
  have dp: "(case depth of
                 None \<Rightarrow> False
               | Some d \<Rightarrow>
                   (case minDepth tag of None \<Rightarrow> False | Some lo \<Rightarrow> d < lo) \<or>
                   (case maxDepth tag of None \<Rightarrow> False | Some hi \<Rightarrow> d > hi)) \<longleftrightarrow>
      \<not> (\<forall>d. depth = Some d \<longrightarrow>
        (\<forall>lo. minDepth tag = Some lo \<longrightarrow> lo \<le> d) \<and>
        (\<forall>hi. maxDepth tag = Some hi \<longrightarrow> d \<le> hi))"
    by (auto split: option.splits)
  show ?thesis
    unfolding shouldApplyRule_def ex dp includes_arr_def by (simp only: if_False if_True split: if_splits) blast
qed

theorem shouldApplyRule_iff_witness:
  "shouldApplyRule
     \<lparr>tags = [],
      excludedPrompts =
        Some [\<lparr>id_prompt = ''p1'', text_prompt = ''zz'', excluded = True, source = ''s''\<rparr>],
      autoRefresh = True, debugMode = False\<rparr>
     \<lparr>id_tag = ''t1'', startTag = ''<a>'', endTag = ''</a>'', enabled = True, minDepth = Some 3,
      maxDepth = Some 7, markdownOnly = False, promptOnly = True, runOnEdit = True,
      placement = [2], regexPattern = None, replaceString = [], scriptName = ''n'',
      substituteRegex = 0\<rparr>
     ''hello'' (Some 5) 2"
  by (subst shouldApplyRule_iff) (simp add: sublist_def[symmetric] sublist_code)

section \<open>Properties of the rewriter\<close>

lemma lazy_until_None: "lazy_until e t = None \<Longrightarrow> t \<noteq> y @ e @ z"
proof (induction t arbitrary: y)
  case Nil
  then show ?case by (auto split: if_splits)
next
  case (Cons c cs)
  from Cons.prems have np: "\<not> prefix e (c # cs)" and rec: "lazy_until e cs = None"
    by (auto split: if_splits)
  show ?case
  proof (cases y)
    case Nil
    with np show ?thesis by (auto simp: prefix_def)
  next
    case (Cons a y')
    with Cons.IH [OF rec, of y'] show ?thesis by auto
  qed
qed

lemma lazy_until_shortest:
  "lazy_until e t = Some (cap, rest) \<Longrightarrow> t = y @ e @ z \<Longrightarrow> length cap \<le> length y"
proof (induction t arbitrary: cap y)
  case Nil
  then show ?case by (auto split: if_splits)
next
  case (Cons c cs)
  show ?case
  proof (cases "prefix e (c # cs)")
    case True
    with Cons.prems(1) have "cap = []" by simp
    then show ?thesis by simp
  next
    case False
    with Cons.prems(1) obtain cap' where rec: "lazy_until e cs = Some (cap', rest)" and cap: "cap = c # cap'"
      by auto
    from False Cons.prems(2) obtain y' where y: "y = c # y'" and cs: "cs = y' @ e @ z"
      by (cases y) (auto simp: prefix_def)
    from Cons.IH [OF rec cs] cap y show ?thesis by simp
  qed
qed

lemma match_here_None: "match_here s e t = None \<Longrightarrow> t \<noteq> s @ mid @ e @ post"
  unfolding match_here_def
  by (auto split: if_splits dest: lazy_until_None)

lemma match_here_shortest:
  "match_here s e t = Some (cap, rest) \<Longrightarrow> t = s @ mid @ e @ post \<Longrightarrow> length cap \<le> length mid"
  unfolding match_here_def
  by (auto split: if_splits dest: lazy_until_shortest)

lemma exec_from_None: "exec_from s e t = None \<Longrightarrow> t \<noteq> pre @ s @ mid @ e @ post"
proof (induction t arbitrary: pre)
  case Nil
  then show ?case by (auto dest: match_here_None)
next
  case (Cons c cs)
  from Cons.prems have mh: "match_here s e (c # cs) = None" and rec: "exec_from s e cs = None"
    by (auto split: option.splits)
  show ?case
  proof (cases pre)
    case Nil
    with match_here_None [OF mh] show ?thesis by simp
  next
    case (Cons a pre')
    with Cons.IH [OF rec, of pre'] show ?thesis by auto
  qed
qed

lemma exec_from_leftmost:
  "exec_from s e t = Some (pre, cap, rest) \<Longrightarrow> t = pre' @ s @ mid' @ e @ post'
     \<Longrightarrow> length pre \<le> length pre'"
proof (induction t arbitrary: pre pre')
  case Nil
  then show ?case by auto
next
  case (Cons c cs)
  show ?case
  proof (cases "match_here s e (c # cs)")
    case (Some a)
    with Cons.prems(1) show ?thesis by (auto split: prod.splits)
  next
    case None
    with Cons.prems(1) obtain p1 where rec: "exec_from s e cs = Some (p1, cap, rest)" and pre: "pre = c # p1"
      by auto
    from match_here_None [OF None] Cons.prems(2) obtain p1' where
      pre': "pre' = c # p1'" and cs: "cs = p1' @ s @ mid' @ e @ post'"
      by (cases pre') auto
    from Cons.IH [OF rec cs] pre pre' show ?thesis by simp
  qed
qed

lemma exec_from_shortest:
  "exec_from s e t = Some (pre, cap, rest) \<Longrightarrow> t = pre @ s @ mid' @ e @ post'
     \<Longrightarrow> length cap \<le> length mid'"
proof (induction t arbitrary: pre)
  case Nil
  from Nil(1) have mh: "match_here s e [] = Some (cap, rest)" and pre: "pre = []"
    by (auto split: option.splits)
  from Nil(2) pre have "[] = s @ mid' @ e @ post'" by simp
  with mh show ?case by (rule match_here_shortest)
next
  case (Cons c cs)
  show ?case
  proof (cases "match_here s e (c # cs)")
    case (Some a)
    with Cons.prems(1) have mh: "match_here s e (c # cs) = Some (cap, rest)" and pre: "pre = []"
      by (auto split: prod.splits)
    from Cons.prems(2) pre have "c # cs = s @ mid' @ e @ post'" by simp
    with mh show ?thesis by (rule match_here_shortest)
  next
    case None
    with Cons.prems(1) obtain p1 where rec: "exec_from s e cs = Some (p1, cap, rest)" and pre: "pre = c # p1"
      by auto
    with Cons.prems(2) have "cs = p1 @ s @ mid' @ e @ post'" by simp
    from Cons.IH [OF rec this] show ?thesis .
  qed
qed

lemma exec_from_first_span:
  "exec_from s e t = Some (pre, cap, rest) \<Longrightarrow> first_span s e t pre cap rest"
  unfolding first_span_def
proof (intro conjI allI impI)
  assume ex: "exec_from s e t = Some (pre, cap, rest)"
  show "t = pre @ s @ cap @ e @ rest" by (rule exec_from_decomp [OF ex])
  show "length pre \<le> length pre'" if "t = pre' @ s @ mid' @ e @ post'" for pre' mid' post'
    by (rule exec_from_leftmost [OF ex that])
  show "length cap \<le> length mid'" if "t = pre @ s @ mid' @ e @ post'" for mid' post'
    by (rule exec_from_shortest [OF ex that])
qed

lemma first_span_exec_from:
  assumes "first_span s e t pre mid post"
  shows "exec_from s e t = Some (pre, mid, post)"
proof -
  from assms have t: "t = pre @ s @ mid @ e @ post"
    and left: "\<And>pre' mid' post'. t = pre' @ s @ mid' @ e @ post' \<Longrightarrow> length pre \<le> length pre'"
    and short: "\<And>mid' post'. t = pre @ s @ mid' @ e @ post' \<Longrightarrow> length mid \<le> length mid'"
    unfolding first_span_def by blast+
  from exec_from_None [of s e t pre mid post] t obtain p c r where ex: "exec_from s e t = Some (p, c, r)"
    by (cases "exec_from s e t") auto
  have t': "t = p @ s @ c @ e @ r" by (rule exec_from_decomp [OF ex])
  have "length p \<le> length pre" by (rule exec_from_leftmost [OF ex t])
  moreover have "length pre \<le> length p" by (rule left [OF t'])
  ultimately have p: "p = pre" using t t' by (metis append_eq_append_conv le_antisym)
  with t t' have eq: "c @ e @ r = mid @ e @ post" by simp
  have "length c \<le> length mid" using exec_from_shortest [OF ex] t p by blast
  moreover have "length mid \<le> length c" using short t' p by blast
  ultimately have "c = mid" "r = post" using eq by (auto simp: append_eq_append_conv)
  with ex p show ?thesis by simp
qed

lemma getSubstitution_plain:
  "CHR ''$'' \<notin> set r \<Longrightarrow> getSubstitution m b a c r = r"
  by (induction m b a c r rule: getSubstitution.induct) auto

lemma replace_all_None: "exec_from s e t = None \<Longrightarrow> replace_all s e r b t = t"
  by (subst replace_all.simps) simp

lemma replace_all_match:
  assumes "exec_from s e t = Some (pre, cap, rest)" and "s @ cap @ e \<noteq> []"
  shows "replace_all s e r b t =
     pre @ getSubstitution (s @ cap @ e) (b @ pre) rest cap r @
     replace_all s e r (b @ pre @ s @ cap @ e) rest"
proof -
  from assms(2) have ne: "(s @ cap @ e = []) = False" by simp
  show ?thesis
    by (subst replace_all.simps) (simp only: assms(1) ne option.case prod.case if_False)
qed

lemma replace_all_empty_end:
  assumes "exec_from s e t = Some (pre, cap, [])" and "s @ cap @ e = []"
  shows "replace_all s e r b t = pre @ getSubstitution [] (b @ pre) [] cap r"
proof -
  from assms(2) have ne: "(s @ cap @ e = []) = True" by simp
  show ?thesis
    by (subst replace_all.simps) (simp only: assms(1) ne option.case prod.case if_True list.case)
qed

lemma replace_all_empty_step:
  assumes "exec_from s e t = Some (pre, cap, c # cs)" and "s @ cap @ e = []"
  shows "replace_all s e r b t =
     pre @ getSubstitution [] (b @ pre) (c # cs) cap r @ c # replace_all s e r (b @ pre @ [c]) cs"
proof -
  from assms(2) have ne: "(s @ cap @ e = []) = True" by simp
  show ?thesis
    by (subst replace_all.simps) (simp only: assms(1) ne option.case prod.case if_True list.case)
qed

lemma replace_all_no_span: "\<not> has_span s e t \<Longrightarrow> replace_all s e r b t = t"
proof -
  assume ns: "\<not> has_span s e t"
  have "exec_from s e t = None"
  proof (cases "exec_from s e t")
    case (Some a)
    then obtain p c q where "exec_from s e t = Some (p, c, q)" by (cases a) auto
    from exec_from_decomp [OF this] ns show ?thesis by (auto simp: has_span_def)
  qed simp
  then show ?thesis by (rule replace_all_None)
qed

lemma replace_all_first_span:
  assumes "first_span s e t pre mid post" and "s @ e \<noteq> []"
  shows "replace_all s e r b t =
     pre @ getSubstitution (s @ mid @ e) (b @ pre) post mid r @
     replace_all s e r (b @ pre @ s @ mid @ e) post"
proof -
  from assms(1) have ex: "exec_from s e t = Some (pre, mid, post)" by (rule first_span_exec_from)
  from assms(2) have "s @ mid @ e \<noteq> []" by auto
  with ex show ?thesis by (rule replace_all_match)
qed

lemma replace_all_plain_context:
  "CHR ''$'' \<notin> set r \<Longrightarrow> replace_all s e r b t = replace_all s e r b' t"
proof (induction s e r b t arbitrary: b' rule: replace_all.induct)
  case (1 s e r b t)
  note plain = getSubstitution_plain [OF "1.prems"]
  show ?case
  proof (cases "exec_from s e t")
    case None
    then show ?thesis by (simp only: replace_all_None)
  next
    case (Some a)
    then obtain pre cap rest where ex: "exec_from s e t = Some (pre, cap, rest)" by (cases a) auto
    show ?thesis
    proof (cases "s @ cap @ e = []")
      case True
      show ?thesis
      proof (cases rest)
        case Nil
        with ex have ex': "exec_from s e t = Some (pre, cap, [])" by simp
        show ?thesis
          unfolding replace_all_empty_end [OF ex' True] plain ..
      next
        case (Cons c cs)
        from "1.IH"(1) [OF ex refl refl True Cons "1.prems", of "b' @ pre @ [c]"]
        have IH: "replace_all s e r (b @ pre @ [c]) cs = replace_all s e r (b' @ pre @ [c]) cs" .
        from ex Cons have ex': "exec_from s e t = Some (pre, cap, c # cs)" by simp
        show ?thesis
          unfolding replace_all_empty_step [OF ex' True] plain IH ..
      qed
    next
      case False
      from "1.IH"(2) [OF ex refl refl False "1.prems", of "b' @ pre @ s @ cap @ e"]
      have IH: "replace_all s e r (b @ pre @ s @ cap @ e) rest = replace_all s e r (b' @ pre @ s @ cap @ e) rest" .
      show ?thesis
        unfolding replace_all_match [OF ex False] plain IH ..
    qed
  qed
qed


lemma exec_from_None_no_span: "exec_from s e t = None \<Longrightarrow> \<not> has_span s e t"
  unfolding has_span_def using exec_from_None by blast

lemma replace_all_spans_replaced:
  assumes ne: "s @ e \<noteq> []"
  shows "spans_replaced s e r b t (replace_all s e r b t)"
proof (induction "length t" arbitrary: t b rule: less_induct)
  case less
  show ?case
  proof (cases "exec_from s e t")
    case None
    then have "\<not> has_span s e t" by (rule exec_from_None_no_span)
    then have "spans_replaced s e r b t t" by (rule spans_replaced.no_span)
    with None show ?thesis by (simp only: replace_all_None)
  next
    case (Some a)
    then obtain pre cap rest where ex: "exec_from s e t = Some (pre, cap, rest)"
      by (cases a) auto
    from ne have ne': "s @ cap @ e \<noteq> []" by auto
    have fs: "first_span s e t pre cap rest" by (rule exec_from_first_span [OF ex])
    have "t = pre @ s @ cap @ e @ rest" by (rule exec_from_decomp [OF ex])
    with ne' have "length rest < length t" by auto
    then have "spans_replaced s e r (b @ pre @ s @ cap @ e) rest
        (replace_all s e r (b @ pre @ s @ cap @ e) rest)"
      by (rule less)
    with fs have "spans_replaced s e r b t
        (pre @ getSubstitution (s @ cap @ e) (b @ pre) rest cap r @
         replace_all s e r (b @ pre @ s @ cap @ e) rest)"
      by (rule spans_replaced.span)
    then show ?thesis by (simp only: replace_all_match [OF ex ne'])
  qed
qed

lemma spans_replaced_unique:
  "spans_replaced s e r b t out \<Longrightarrow> s @ e \<noteq> [] \<Longrightarrow> out = replace_all s e r b t"
proof (induction rule: spans_replaced.induct)
  case (no_span s e t r b)
  then show ?case by (simp add: replace_all_no_span)
next
  case (span s e t pre mid post r b out)
  from span.IH span.prems have "out = replace_all s e r (b @ pre @ s @ mid @ e) post" by simp
  then show ?case
    by (simp only: replace_all_first_span [OF span.hyps(1) span.prems])
qed

text \<open>
  C3 (as amended). For every start tag and end tag that are not both empty, and every text,
  the output of \<open>processWithTags\<close> is the one text in which each non-overlapping span, from
  the start tag through the end tag, leftmost first and shortest from there, the tags being
  matched code unit by code unit, is replaced by the replacement string after the expansion
  of the patterns \<open>$$\<close>, \<open>$&\<close>, \<open>$`\<close>, \<open>$'\<close>, \<open>$1\<close> and \<open>$01\<close> in it; a
  replacement string without a dollar sign is put in as it is. A text with no span is returned
  unchanged. Start tag \<open><a>\<close>, end tag \<open></a>\<close> and the empty replacement turn
  \<open>x<a>secret</a>y\<close> into \<open>xy\<close>.
\<close>

theorem processWithTags_spans:
  "(s @ e \<noteq> [] \<longrightarrow> (spans_replaced s e r [] t out \<longleftrightarrow> out = processWithTags t s e r)) \<and>
   (\<not> has_span s e t \<longrightarrow> processWithTags t s e r = t) \<and>
   (first_span s e t pre mid post \<and> s @ e \<noteq> [] \<longrightarrow>
      processWithTags t s e r =
        pre @ getSubstitution (s @ mid @ e) pre post mid r @
        replace_all s e r (pre @ s @ mid @ e) post) \<and>
   (first_span s e t pre mid post \<and> s @ e \<noteq> [] \<and> CHR ''$'' \<notin> set r \<longrightarrow>
      processWithTags t s e r = pre @ r @ processWithTags post s e r) \<and>
   (CHR ''$'' \<notin> set r \<longrightarrow> getSubstitution matched preceding following cap r = r) \<and>
   processWithTags ''x<a>secret</a>y'' ''<a>'' ''</a>'' [] = ''xy''"
proof (intro conjI impI)
  assume ne: "s @ e \<noteq> []"
  show "spans_replaced s e r [] t out \<longleftrightarrow> out = processWithTags t s e r"
  proof
    assume "spans_replaced s e r [] t out"
    then show "out = processWithTags t s e r"
      unfolding processWithTags_def using ne by (rule spans_replaced_unique)
  next
    assume "out = processWithTags t s e r"
    then show "spans_replaced s e r [] t out"
      unfolding processWithTags_def using replace_all_spans_replaced [OF ne] by simp
  qed
next
  assume "\<not> has_span s e t"
  then show "processWithTags t s e r = t"
    unfolding processWithTags_def by (rule replace_all_no_span)
next
  assume "first_span s e t pre mid post \<and> s @ e \<noteq> []"
  then show "processWithTags t s e r =
        pre @ getSubstitution (s @ mid @ e) pre post mid r @
        replace_all s e r (pre @ s @ mid @ e) post"
    unfolding processWithTags_def using replace_all_first_span [of s e t pre mid post r "[]"]
    by simp
next
  assume a: "first_span s e t pre mid post \<and> s @ e \<noteq> [] \<and> CHR ''$'' \<notin> set r"
  then have "replace_all s e r [] t =
      pre @ getSubstitution (s @ mid @ e) pre post mid r @ replace_all s e r (pre @ s @ mid @ e) post"
    using replace_all_first_span [of s e t pre mid post r "[]"] by simp
  moreover from a have "getSubstitution (s @ mid @ e) pre post mid r = r"
    by (simp add: getSubstitution_plain)
  moreover from a have "replace_all s e r (pre @ s @ mid @ e) post = replace_all s e r [] post"
    by (intro replace_all_plain_context) simp
  ultimately show "processWithTags t s e r = pre @ r @ processWithTags post s e r"
    unfolding processWithTags_def by simp
next
  assume "CHR ''$'' \<notin> set r"
  then show "getSubstitution matched preceding following cap r = r"
    by (rule getSubstitution_plain)
next
  show "processWithTags ''x<a>secret</a>y'' ''<a>'' ''</a>'' [] = ''xy''"
    by code_simp
qed

theorem processWithTags_spans_witness:
  "spans_replaced ''<a>'' ''</a>'' ''[$1]'' [] ''x<a>secret</a>y<a>2</a>'' ''x[secret]y[2]'' \<and>
   getSubstitution ''<a>2</a>'' ''x'' ''y'' ''2'' ''-'' = ''-'' \<and>
   processWithTags ''plain'' ''<a>'' ''</a>'' ''-'' = ''plain'' \<and>
   processWithTags ''x<a>secret</a>y<a>2</a>'' ''<a>'' ''</a>'' ''[$1]'' =
     ''x'' @ getSubstitution (''<a>'' @ ''secret'' @ ''</a>'') ''x'' ''y<a>2</a>'' ''secret'' ''[$1]'' @
     replace_all ''<a>'' ''</a>'' ''[$1]'' (''x'' @ ''<a>'' @ ''secret'' @ ''</a>'') ''y<a>2</a>'' \<and>
   processWithTags ''x<a>secret</a>y<a>2</a>'' ''<a>'' ''</a>'' ''-'' =
     ''x'' @ ''-'' @ processWithTags ''y<a>2</a>'' ''<a>'' ''</a>'' ''-''"
proof -
  have "exec_from ''<a>'' ''</a>'' ''plain'' = None" by code_simp
  then have h1: "\<not> has_span ''<a>'' ''</a>'' ''plain''" by (rule exec_from_None_no_span)
  have "exec_from ''<a>'' ''</a>'' ''x<a>secret</a>y<a>2</a>'' = Some (''x'', ''secret'', ''y<a>2</a>'')"
    by code_simp
  then have h2: "first_span ''<a>'' ''</a>'' ''x<a>secret</a>y<a>2</a>'' ''x'' ''secret'' ''y<a>2</a>''"
    by (rule exec_from_first_span)
  have h3: "''<a>'' @ ''</a>'' \<noteq> []" by simp
  have h4: "CHR ''$'' \<notin> set ''-''" by simp
  have c1: "processWithTags ''plain'' ''<a>'' ''</a>'' ''-'' = ''plain''"
    using h1 processWithTags_spans [where s = "''<a>''" and e = "''</a>''" and t = "''plain''"
        and r = "''-''"]
    by blast
  have c2: "processWithTags ''x<a>secret</a>y<a>2</a>'' ''<a>'' ''</a>'' ''[$1]'' =
     ''x'' @ getSubstitution (''<a>'' @ ''secret'' @ ''</a>'') ''x'' ''y<a>2</a>'' ''secret'' ''[$1]'' @
     replace_all ''<a>'' ''</a>'' ''[$1]'' (''x'' @ ''<a>'' @ ''secret'' @ ''</a>'') ''y<a>2</a>''"
    using h2 h3 processWithTags_spans [where s = "''<a>''" and e = "''</a>''"
        and t = "''x<a>secret</a>y<a>2</a>''" and pre = "''x''" and mid = "''secret''"
        and post = "''y<a>2</a>''" and r = "''[$1]''"]
    by blast
  have c3: "processWithTags ''x<a>secret</a>y<a>2</a>'' ''<a>'' ''</a>'' ''-'' =
     ''x'' @ ''-'' @ processWithTags ''y<a>2</a>'' ''<a>'' ''</a>'' ''-''"
    using h2 h3 h4 processWithTags_spans [where s = "''<a>''" and e = "''</a>''"
        and t = "''x<a>secret</a>y<a>2</a>''" and pre = "''x''" and mid = "''secret''"
        and post = "''y<a>2</a>''" and r = "''-''"]
    by blast
  have h5: "''x[secret]y[2]'' =
      processWithTags ''x<a>secret</a>y<a>2</a>'' ''<a>'' ''</a>'' ''[$1]''"
    by code_simp
  have c4: "spans_replaced ''<a>'' ''</a>'' ''[$1]'' [] ''x<a>secret</a>y<a>2</a>'' ''x[secret]y[2]''"
    using h3 h5 processWithTags_spans [where s = "''<a>''" and e = "''</a>''"
        and t = "''x<a>secret</a>y<a>2</a>''" and r = "''[$1]''" and out = "''x[secret]y[2]''"]
    by blast
  have c5: "getSubstitution ''<a>2</a>'' ''x'' ''y'' ''2'' ''-'' = ''-''"
    using h4 processWithTags_spans [where r = "''-''" and matched = "''<a>2</a>''"
        and preceding = "''x''" and following = "''y''" and cap = "''2''"]
    by blast
  from c1 c2 c3 c4 c5 show ?thesis by blast
qed

text \<open>
  With the replacement string \<open>$1\<close> the first span of \<open>x<a>secret</a>y\<close> is replaced by
  the text between the tags, not by the two characters of the replacement string.
\<close>

theorem processWithTags_literal_counterexample:
  "first_span ''<a>'' ''</a>'' ''x<a>secret</a>y'' ''x'' ''secret'' ''y'' \<and>
   processWithTags ''x<a>secret</a>y'' ''<a>'' ''</a>'' ''$1'' = ''xsecrety'' \<and>
   processWithTags ''x<a>secret</a>y'' ''<a>'' ''</a>'' ''$1'' \<noteq>
     ''x'' @ ''$1'' @ processWithTags ''y'' ''<a>'' ''</a>'' ''$1''"
proof (intro conjI)
  have "exec_from ''<a>'' ''</a>'' ''x<a>secret</a>y'' = Some (''x'', ''secret'', ''y'')"
    by code_simp
  then show "first_span ''<a>'' ''</a>'' ''x<a>secret</a>y'' ''x'' ''secret'' ''y''"
    by (rule exec_from_first_span)
  show "processWithTags ''x<a>secret</a>y'' ''<a>'' ''</a>'' ''$1'' = ''xsecrety''"
    by code_simp
  show "processWithTags ''x<a>secret</a>y'' ''<a>'' ''</a>'' ''$1'' \<noteq>
     ''x'' @ ''$1'' @ processWithTags ''y'' ''<a>'' ''</a>'' ''$1''"
    by code_simp
qed

lemma lastIndexOf_from_append:
  "lastIndexOf_from c (xs @ ys) i found =
     lastIndexOf_from c ys (i + int (length xs)) (lastIndexOf_from c xs i found)"
  by (induction xs arbitrary: i found) (simp_all add: add.assoc)

lemma lastIndexOf_from_absent: "c \<notin> set xs \<Longrightarrow> lastIndexOf_from c xs i found = found"
  by (induction xs arbitrary: i) auto

lemma lastIndexOf_last: "c \<notin> set f \<Longrightarrow> lastIndexOf (xs @ c # f) c = int (length xs)"
  by (simp add: lastIndexOf_def lastIndexOf_from_append lastIndexOf_from_absent)

lemma lastIndexOf_leading: "c \<notin> set (tl p) \<Longrightarrow> lastIndexOf p c \<le> 0"
  by (cases p) (simp_all add: lastIndexOf_def lastIndexOf_from_absent)

text \<open>
  C4 (as amended). \<open>processWithRegex\<close> splits the pattern string at its last slash whenever
  that slash is not the first character, whether or not the string begins with a slash: the
  flags are everything after the last slash and the body is what lies between the first
  character and the last slash. A string with no slash after its first character is the body
  as a whole, less one leading slash, with no flags. So \<open>/foo(bar)/gi\<close> has the body
  \<open>foo(bar)\<close> and the flags \<open>gi\<close>, and \<open>a/b\<close> is split at its interior slash into the
  empty body and the flags \<open>b\<close>, which is what the constructor is called with.
\<close>

theorem regex_parts_split:
  "(CHR ''/'' \<notin> set f \<longrightarrow> regex_parts (c # b @ CHR ''/'' # f) = (b, f)) \<and>
   (CHR ''/'' \<notin> set (tl p) \<longrightarrow> regex_parts p = (if startsWith p ''/'' then tl p else p, [])) \<and>
   regex_parts ''/foo(bar)/gi'' = (''foo(bar)'', ''gi'') \<and>
   regex_parts ''a/b'' = ([], ''b'') \<and>
   processWithRegex eng tx ''a/b'' r =
     (case RegExp eng [] ''b'' of None \<Rightarrow> tx | Some regex \<Rightarrow> replace eng tx regex r)"
proof (intro conjI impI)
  assume f: "CHR ''/'' \<notin> set f"
  have "lastIndexOf (c # b @ CHR ''/'' # f) CHR ''/'' = int (length (c # b))"
    using lastIndexOf_last [OF f, of "c # b"] by simp
  moreover have "nat (2 + int (length b)) = Suc (Suc (length b))" by simp
  ultimately show "regex_parts (c # b @ CHR ''/'' # f) = (b, f)"
    by (simp add: regex_parts_def substring_def substring_from_def Let_def)
next
  assume "CHR ''/'' \<notin> set (tl p)"
  then have "lastIndexOf p CHR ''/'' \<le> 0" by (rule lastIndexOf_leading)
  then show "regex_parts p = (if startsWith p ''/'' then tl p else p, [])"
    by (cases p) (simp_all add: regex_parts_def substring_def substring_from_def Let_def startsWith_def)
next
  show "regex_parts ''/foo(bar)/gi'' = (''foo(bar)'', ''gi'')" by code_simp
  show a: "regex_parts ''a/b'' = ([], ''b'')" by code_simp
  show "processWithRegex eng tx ''a/b'' r =
     (case RegExp eng [] ''b'' of None \<Rightarrow> tx | Some regex \<Rightarrow> replace eng tx regex r)"
    by (simp add: processWithRegex_def a)
qed

text \<open>The pattern string \<open>a/b\<close> is not taken whole as the body.\<close>

theorem regex_parts_interior_counterexample:
  "regex_parts ''a/b'' \<noteq> (''a/b'', [])"
  by code_simp

theorem regex_parts_split_witness:
  "regex_parts (CHR ''/'' # ''foo'' @ CHR ''/'' # ''gi'') = (''foo'', ''gi'') \<and>
   regex_parts ''/abc'' = (if startsWith ''/abc'' ''/'' then tl ''/abc'' else ''/abc'', [])"
proof -
  have h1: "CHR ''/'' \<notin> set ''gi''" by simp
  have h2: "CHR ''/'' \<notin> set (tl ''/abc'')" by simp
  show ?thesis
    using h1 h2
      regex_parts_split [where f = "''gi''" and c = "CHR ''/''" and b = "''foo''" and p = "''/abc''"]
    by blast
qed

section \<open>Properties of the rule engine\<close>

lemma rules_loop_foldl:
  "rules_loop cfg eng depth plc ts tx =
     foldl (\<lambda>acc tag. if shouldApplyRule cfg tag acc depth plc then rewrite eng tag acc else acc)
       tx ts"
proof (induction ts arbitrary: tx)
  case Nil
  show ?case by simp
next
  case (Cons tag ts)
  show ?case
  proof (cases "shouldApplyRule cfg tag tx depth plc")
    case False
    then show ?thesis by (simp add: Cons.IH)
  next
    case True
    have "rewrite eng tag tx =
        (case regexPattern tag of
           None \<Rightarrow> processWithTags tx (startTag tag) (endTag tag) (replaceString tag)
         | Some p \<Rightarrow>
             if p \<noteq> [] then processWithRegex eng tx p (replaceString tag)
             else processWithTags tx (startTag tag) (endTag tag) (replaceString tag))"
      by (simp add: rewrite_def is_Regex_def split: option.splits)
    with True show ?thesis by (simp add: Cons.IH Let_def)
  qed
qed

lemma rules_loop_unchanged:
  "(\<And>tag. tag \<in> set ts \<Longrightarrow> shouldApplyRule cfg tag text depth plc \<Longrightarrow> rewrite eng tag text = text)
     \<Longrightarrow> rules_loop cfg eng depth plc ts text = text"
  unfolding rules_loop_foldl by (induction ts) simp_all

text \<open>
  C2. The rule engine is the left fold over the rule list: the accumulator starts as the
  text and each rule, in list order, replaces it by the rewriter's output when the matcher
  applies to the accumulator, so every rule sees the output of the rules before it. With an
  empty list, or when no rule applies (or none that applies changes the text), the text is
  returned as it was.
\<close>

theorem applyTagBlockRules_fold:
  "applyTagBlockRules cfg eng text depth plc =
     foldl (\<lambda>acc tag. if shouldApplyRule cfg tag acc depth plc then rewrite eng tag acc else acc)
       text (tags cfg) \<and>
   (tags cfg = [] \<longrightarrow> applyTagBlockRules cfg eng text depth plc = text) \<and>
   ((\<forall>tag \<in> set (tags cfg). \<not> shouldApplyRule cfg tag text depth plc) \<longrightarrow>
      applyTagBlockRules cfg eng text depth plc = text) \<and>
   ((\<forall>tag \<in> set (tags cfg). shouldApplyRule cfg tag text depth plc \<longrightarrow> rewrite eng tag text = text) \<longrightarrow>
      applyTagBlockRules cfg eng text depth plc = text)"
proof (intro conjI impI)
  show "applyTagBlockRules cfg eng text depth plc =
     foldl (\<lambda>acc tag. if shouldApplyRule cfg tag acc depth plc then rewrite eng tag acc else acc)
       text (tags cfg)"
    by (simp add: applyTagBlockRules_def rules_loop_foldl)
next
  assume "tags cfg = []"
  then show "applyTagBlockRules cfg eng text depth plc = text"
    by (simp add: applyTagBlockRules_def)
next
  assume "\<forall>tag \<in> set (tags cfg). \<not> shouldApplyRule cfg tag text depth plc"
  then show "applyTagBlockRules cfg eng text depth plc = text"
    unfolding applyTagBlockRules_def by (intro rules_loop_unchanged) blast
next
  assume "\<forall>tag \<in> set (tags cfg). shouldApplyRule cfg tag text depth plc \<longrightarrow> rewrite eng tag text = text"
  then show "applyTagBlockRules cfg eng text depth plc = text"
    unfolding applyTagBlockRules_def by (intro rules_loop_unchanged) blast
qed

theorem applyTagBlockRules_fold_witness:
  "applyTagBlockRules (settings_of []) rejecting_engine ''abc'' None 2 = ''abc'' \<and>
   applyTagBlockRules (settings_of [tag_rule ''<a>'' ''</a>'' [] [2]]) rejecting_engine
     ''x<a>b</a>'' (Some 0) 0 = ''x<a>b</a>''"
proof -
  have "tags (settings_of []) = []" by (simp add: settings_of_def)
  moreover have "\<forall>tag \<in> set (tags (settings_of [tag_rule ''<a>'' ''</a>'' [] [2]])).
      \<not> shouldApplyRule (settings_of [tag_rule ''<a>'' ''</a>'' [] [2]]) tag ''x<a>b</a>'' (Some 0) 0"
    by (simp add: settings_of_def tag_rule_def shouldApplyRule_def includes_arr_def)
  ultimately show ?thesis
    using applyTagBlockRules_fold [of "settings_of []" rejecting_engine "''abc''" None 2]
      applyTagBlockRules_fold [of "settings_of [tag_rule ''<a>'' ''</a>'' [] [2]]"
        rejecting_engine "''x<a>b</a>''" "Some 0" 0]
    by blast
qed

text \<open>
  C9 (as amended). Applying the rule engine to its own output returns that output whenever
  the output is fully rewritten, that is, whenever no rule that applies to it changes it.
  Without that condition a second application can differ from the first: the engine makes
  one pass over the rules and removing a span can bring a new span together.
\<close>

theorem applyTagBlockRules_twice_fixed:
  "(\<forall>tag \<in> set (tags cfg).
       shouldApplyRule cfg tag (applyTagBlockRules cfg eng text depth plc) depth plc \<longrightarrow>
       rewrite eng tag (applyTagBlockRules cfg eng text depth plc) =
         applyTagBlockRules cfg eng text depth plc)
   \<Longrightarrow> applyTagBlockRules cfg eng (applyTagBlockRules cfg eng text depth plc) depth plc =
         applyTagBlockRules cfg eng text depth plc"
  unfolding applyTagBlockRules_def by (intro rules_loop_unchanged) blast

theorem applyTagBlockRules_twice_fixed_witness:
  "applyTagBlockRules (settings_of [tag_rule ''<a>'' ''</a>'' [] [2]]) rejecting_engine
     (applyTagBlockRules (settings_of [tag_rule ''<a>'' ''</a>'' [] [2]]) rejecting_engine
        ''x<a>secret</a>y'' None 2) None 2
   = applyTagBlockRules (settings_of [tag_rule ''<a>'' ''</a>'' [] [2]]) rejecting_engine
        ''x<a>secret</a>y'' None 2"
proof -
  have "\<forall>tag \<in> set (tags (settings_of [tag_rule ''<a>'' ''</a>'' [] [2]])).
       shouldApplyRule (settings_of [tag_rule ''<a>'' ''</a>'' [] [2]]) tag
         (applyTagBlockRules (settings_of [tag_rule ''<a>'' ''</a>'' [] [2]]) rejecting_engine
            ''x<a>secret</a>y'' None 2) None 2 \<longrightarrow>
       rewrite rejecting_engine tag
         (applyTagBlockRules (settings_of [tag_rule ''<a>'' ''</a>'' [] [2]]) rejecting_engine
            ''x<a>secret</a>y'' None 2) =
         applyTagBlockRules (settings_of [tag_rule ''<a>'' ''</a>'' [] [2]]) rejecting_engine
            ''x<a>secret</a>y'' None 2"
    by code_simp
  then show ?thesis by (rule applyTagBlockRules_twice_fixed)
qed

text \<open>
  The rule that removes \<open><a>...</a>\<close> turns \<open><a<a></a>></a>\<close> into \<open><a></a>\<close>, and a
  second application turns that into the empty text.
\<close>

theorem applyTagBlockRules_twice_counterexample:
  "applyTagBlockRules (settings_of [tag_rule ''<a>'' ''</a>'' [] [2]]) rejecting_engine
     ''<a<a></a>></a>'' None 2 = ''<a></a>'' \<and>
   applyTagBlockRules (settings_of [tag_rule ''<a>'' ''</a>'' [] [2]]) rejecting_engine
     (applyTagBlockRules (settings_of [tag_rule ''<a>'' ''</a>'' [] [2]]) rejecting_engine
        ''<a<a></a>></a>'' None 2) None 2 = [] \<and>
   applyTagBlockRules (settings_of [tag_rule ''<a>'' ''</a>'' [] [2]]) rejecting_engine
     (applyTagBlockRules (settings_of [tag_rule ''<a>'' ''</a>'' [] [2]]) rejecting_engine
        ''<a<a></a>></a>'' None 2) None 2
   \<noteq> applyTagBlockRules (settings_of [tag_rule ''<a>'' ''</a>'' [] [2]]) rejecting_engine
        ''<a<a></a>></a>'' None 2"
  by code_simp

lemma shouldApplyRule_tags_update [simp]:
  "shouldApplyRule (cfg\<lparr>tags := ts\<rparr>) tag tx depth plc = shouldApplyRule cfg tag tx depth plc"
  by (simp add: shouldApplyRule_def)

lemma rules_loop_tags_update [simp]:
  "rules_loop (cfg\<lparr>tags := ts'\<rparr>) eng depth plc ts tx = rules_loop cfg eng depth plc ts tx"
  by (simp add: rules_loop_foldl)

lemma rules_loop_append:
  "rules_loop cfg eng depth plc (before_ts @ after_ts) tx =
     rules_loop cfg eng depth plc after_ts (rules_loop cfg eng depth plc before_ts tx)"
  by (simp add: rules_loop_foldl)

lemma applyTagBlockRules_tags_update:
  "applyTagBlockRules (cfg\<lparr>tags := ts\<rparr>) eng tx depth plc = rules_loop cfg eng depth plc ts tx"
  by (simp add: applyTagBlockRules_def)

lemma processWithRegex_compile_failure:
  "regex_parts p = (b, f) \<Longrightarrow> RegExp eng b f = None \<Longrightarrow> processWithRegex eng tx p r = tx"
  by (simp add: processWithRegex_def)

lemma rules_loop_skip_malformed:
  assumes "regexPattern tag = Some p" "p \<noteq> []" "regex_parts p = (b, f)" "RegExp eng b f = None"
  shows "rules_loop cfg eng depth plc (tag # ts) tx = rules_loop cfg eng depth plc ts tx"
proof -
  have "rewrite eng tag tx = tx"
    using assms by (simp add: rewrite_def is_Regex_def processWithRegex_compile_failure)
  then show ?thesis by (simp add: rules_loop_foldl)
qed

text \<open>
  C5. When the constructor rejects the body and flags taken from the pattern string, as for
  the pattern \<open>/(/\<close> whose body is an unclosed parenthesis, \<open>processWithRegex\<close> returns
  the input text; it is a total function on strings, so nothing is thrown to the caller. In
  the rule engine such a rule is a no-op: the result is the one of the rule list without it,
  so every other rule is applied as before.
\<close>

theorem malformed_regex_noop:
  "(regex_parts p = (b, f) \<and> RegExp eng b f = None \<longrightarrow> processWithRegex eng tx p r = tx) \<and>
   (RegExp eng ''('' [] = None \<longrightarrow> processWithRegex eng tx ''/(/'' r = tx) \<and>
   (regexPattern tag = Some p \<and> p \<noteq> [] \<and> regex_parts p = (b, f) \<and> RegExp eng b f = None \<longrightarrow>
      applyTagBlockRules (cfg\<lparr>tags := before_ts @ tag # after_ts\<rparr>) eng tx depth plc =
      applyTagBlockRules (cfg\<lparr>tags := before_ts @ after_ts\<rparr>) eng tx depth plc)"
proof (intro conjI impI)
  assume "regex_parts p = (b, f) \<and> RegExp eng b f = None"
  then show "processWithRegex eng tx p r = tx"
    by (simp add: processWithRegex_compile_failure)
next
  assume a: "RegExp eng ''('' [] = None"
  have "regex_parts ''/(/'' = (''('', [])" by code_simp
  with a show "processWithRegex eng tx ''/(/'' r = tx"
    by (simp add: processWithRegex_compile_failure)
next
  assume a: "regexPattern tag = Some p \<and> p \<noteq> [] \<and> regex_parts p = (b, f) \<and> RegExp eng b f = None"
  then have "rules_loop cfg eng depth plc (tag # after_ts) (rules_loop cfg eng depth plc before_ts tx) =
      rules_loop cfg eng depth plc after_ts (rules_loop cfg eng depth plc before_ts tx)"
    by (intro rules_loop_skip_malformed) auto
  then show "applyTagBlockRules (cfg\<lparr>tags := before_ts @ tag # after_ts\<rparr>) eng tx depth plc =
      applyTagBlockRules (cfg\<lparr>tags := before_ts @ after_ts\<rparr>) eng tx depth plc"
    by (simp only: applyTagBlockRules_tags_update rules_loop_append)
qed

theorem malformed_regex_noop_witness:
  "processWithRegex rejecting_engine ''some text'' ''/(/'' ''x'' = ''some text'' \<and>
   applyTagBlockRules
     (settings_of [tag_rule ''<a>'' ''</a>'' [] [2], regex_rule ''/(/'' ''x'' [2],
        tag_rule ''<b>'' ''</b>'' [] [2]]) rejecting_engine ''1<a>2</a>3<b>4</b>5'' None 2 =
   applyTagBlockRules
     (settings_of [tag_rule ''<a>'' ''</a>'' [] [2], tag_rule ''<b>'' ''</b>'' [] [2]])
     rejecting_engine ''1<a>2</a>3<b>4</b>5'' None 2 \<and>
   applyTagBlockRules
     (settings_of [tag_rule ''<a>'' ''</a>'' [] [2], regex_rule ''/(/'' ''x'' [2],
        tag_rule ''<b>'' ''</b>'' [] [2]]) rejecting_engine ''1<a>2</a>3<b>4</b>5'' None 2 = ''135''"
proof -
  have p: "regex_parts ''/(/'' = (''('', [])" by code_simp
  have c: "RegExp rejecting_engine ''('' [] = None" by (simp add: rejecting_engine_def)
  have t: "regexPattern (regex_rule ''/(/'' ''x'' [2]) = Some ''/(/''" "''/(/'' \<noteq> []"
    by (simp_all add: regex_rule_def)
  note T = malformed_regex_noop [where p = "''/(/''" and b = "''(''" and f = "[]"
      and eng = rejecting_engine and tx = "''some text''" and r = "''x''"]
  note U = malformed_regex_noop [where p = "''/(/''" and b = "''(''" and f = "[]"
      and eng = rejecting_engine and tx = "''1<a>2</a>3<b>4</b>5''"
      and tag = "regex_rule ''/(/'' ''x'' [2]" and cfg = "settings_of []"
      and before_ts = "[tag_rule ''<a>'' ''</a>'' [] [2]]" and after_ts = "[tag_rule ''<b>'' ''</b>'' [] [2]]"
      and depth = None and plc = 2]
  have c1: "processWithRegex rejecting_engine ''some text'' ''/(/'' ''x'' = ''some text''"
    using T p c by blast
  have c2: "applyTagBlockRules
     (settings_of [tag_rule ''<a>'' ''</a>'' [] [2], regex_rule ''/(/'' ''x'' [2],
        tag_rule ''<b>'' ''</b>'' [] [2]]) rejecting_engine ''1<a>2</a>3<b>4</b>5'' None 2 =
   applyTagBlockRules
     (settings_of [tag_rule ''<a>'' ''</a>'' [] [2], tag_rule ''<b>'' ''</b>'' [] [2]])
     rejecting_engine ''1<a>2</a>3<b>4</b>5'' None 2"
    using U p c t by (simp add: settings_of_def)
  have c3: "applyTagBlockRules
     (settings_of [tag_rule ''<a>'' ''</a>'' [] [2], tag_rule ''<b>'' ''</b>'' [] [2]])
     rejecting_engine ''1<a>2</a>3<b>4</b>5'' None 2 = ''135''"
    by code_simp
  from c1 c2 c3 show ?thesis by simp
qed

section \<open>Properties of the import\<close>

text \<open>
  C6. A script without \<open>findRegex\<close> and with the tags \<open><a>\<close> and \<open></a>\<close> passes the
  check of \<open>onImportScriptClick\<close>, yet the rule \<open>importScriptToTag\<close> builds from it has
  empty tags and no pattern, as the rule built from any script has empty tags: it is neither
  a TagPair rule nor a Regex rule.
\<close>

theorem importScriptToTag_drops_tags:
  "startTag (importScriptToTag uuid name sd) = [] \<and>
   endTag (importScriptToTag uuid name sd) = [] \<and>
   \<not> is_TagPair (importScriptToTag uuid name sd) \<and>
   import_accepts tag_script \<and>
   regexPattern (importScriptToTag uuid name tag_script) = None \<and>
   \<not> is_Regex (importScriptToTag uuid name tag_script)"
  by (simp add: importScriptToTag_def is_TagPair_def is_Regex_def tag_script_def
      import_accepts_def or_default_def)

section \<open>Properties of the interception\<close>

lemma then_err_Inr:
  "then_err r f = Inr y \<Longrightarrow> \<exists>x. r = Inr x \<and> f x = Inr y"
  by (cases r) (simp_all add: then_err_def)

lemma then_err_simps [simp]:
  "then_err (Inl err) f = Inl err"
  "then_err (Inr x) f = f x"
  by (simp_all add: then_err_def)

lemma get_prop_set_prop_other:
  "k' \<noteq> k \<Longrightarrow> get_prop (set_prop b k v) k' = get_prop b k'"
  by (cases b) (simp_all add: get_prop_def set_prop_def update_conv')

lemma get_prop_set_prop_same:
  "get_prop b k = Inr (Some x) \<Longrightarrow> get_prop (set_prop b k v) k = Inr (Some v)"
  by (cases b) (simp_all add: get_prop_def set_prop_def update_conv')

lemma applyTagBlockRules_val_JStr:
  "applyTagBlockRules_val cfg eng (JStr tx) depth plc =
     Inr (JStr (applyTagBlockRules cfg eng tx depth plc))"
  by (simp add: applyTagBlockRules_val_def)

lemma rewrite_field_other:
  assumes "rewrite_field cfg eng k depth plc b = Inr b'" and "k' \<noteq> k"
  shows "get_prop b' k' = get_prop b k'"
proof -
  from assms(1) obtain v where v: "get_prop b k = Inr v"
    and r: "(if truthy v then
         then_err (applyTagBlockRules_val cfg eng (the v) depth plc) (\<lambda>v'.
           Inr (set_prop b k v'))
       else Inr b) = Inr b'"
    unfolding rewrite_field_def by (blast dest: then_err_Inr)
  show ?thesis
  proof (cases "truthy v")
    case True
    with r obtain v' where "b' = set_prop b k v'" by (auto dest!: then_err_Inr)
    with assms(2) show ?thesis by (simp add: get_prop_set_prop_other)
  next
    case False
    with r show ?thesis by simp
  qed
qed

lemma rewrite_field_JStr:
  assumes "get_prop b k = Inr (Some (JStr tx))"
  shows "rewrite_field cfg eng k depth plc b =
     Inr (if tx = [] then b else set_prop b k (JStr (applyTagBlockRules cfg eng tx depth plc)))"
  using assms by (simp add: rewrite_field_def truthy_def applyTagBlockRules_val_JStr)

lemma adapt_messages_other:
  assumes "adapt_messages cfg eng b = Inr b'" and "k' \<noteq> ''messages''"
  shows "get_prop b' k' = get_prop b k'"
proof -
  from assms(1) obtain ms where ms: "get_prop b ''messages'' = Inr ms"
    and r: "(case ms of
          Some (JArr msgs) \<Rightarrow>
            then_err (rewrite_messages cfg eng 0 msgs) (\<lambda>msgs'.
              Inr (set_prop b ''messages'' (JArr msgs')))
        | _ \<Rightarrow> Inr b) = Inr b'"
    unfolding adapt_messages_def by (blast dest: then_err_Inr)
  from r have "b' = b \<or> (\<exists>x. b' = set_prop b ''messages'' x)"
    by (auto split: option.splits json.splits dest!: then_err_Inr)
  with assms(2) show ?thesis by (auto simp: get_prop_set_prop_other)
qed


lemma adapt_content_other:
  assumes "adapt_content cfg eng b = Inr b'" and "k' \<noteq> ''content''"
  shows "get_prop b' k' = get_prop b k'"
proof -
  from assms(1) obtain c where "get_prop b ''content'' = Inr c"
    and r: "(if truthy c then
         (case the c of
            JStr tx \<Rightarrow>
              Inr (set_prop b ''content'' (JStr (applyTagBlockRules cfg eng tx None 0)))
          | JArr items \<Rightarrow>
              then_err (forEach_err (rewrite_part cfg eng None 0) items) (\<lambda>items'.
                Inr (set_prop b ''content'' (JArr items')))
          | _ \<Rightarrow> Inr b)
       else Inr b) = Inr b'"
    unfolding adapt_content_def by (blast dest: then_err_Inr)
  from r have "b' = b \<or> (\<exists>x. b' = set_prop b ''content'' x)"
    by (auto split: if_splits json.splits dest!: then_err_Inr)
  with assms(2) show ?thesis by (auto simp: get_prop_set_prop_other)
qed

lemma adapt_body_steps:
  assumes "adapt_body cfg eng bd = Inr adapted"
  obtains b1 b2 b3 b4 b5 where
    "rewrite_field cfg eng ''prompt'' None 2 bd = Inr b1"
    "adapt_messages cfg eng b1 = Inr b2"
    "rewrite_field cfg eng ''text'' None 2 b2 = Inr b3"
    "rewrite_field cfg eng ''input'' None 2 b3 = Inr b4"
    "rewrite_field cfg eng ''text'' None 2 b4 = Inr b5"
    "adapt_content cfg eng b5 = Inr adapted"
proof -
  from assms obtain b1 where 1: "rewrite_field cfg eng ''prompt'' None 2 bd = Inr b1"
    and r1: "then_err (adapt_messages cfg eng b1) (\<lambda>b2.
     then_err (rewrite_field cfg eng ''text'' None 2 b2) (\<lambda>b3.
     then_err (rewrite_field cfg eng ''input'' None 2 b3) (\<lambda>b4.
     then_err (rewrite_field cfg eng ''text'' None 2 b4) (\<lambda>b5.
     adapt_content cfg eng b5)))) = Inr adapted"
    unfolding adapt_body_def by (blast dest: then_err_Inr)
  from r1 obtain b2 where 2: "adapt_messages cfg eng b1 = Inr b2"
    and r2: "then_err (rewrite_field cfg eng ''text'' None 2 b2) (\<lambda>b3.
     then_err (rewrite_field cfg eng ''input'' None 2 b3) (\<lambda>b4.
     then_err (rewrite_field cfg eng ''text'' None 2 b4) (\<lambda>b5.
     adapt_content cfg eng b5))) = Inr adapted"
    by (blast dest: then_err_Inr)
  from r2 obtain b3 where 3: "rewrite_field cfg eng ''text'' None 2 b2 = Inr b3"
    and r3: "then_err (rewrite_field cfg eng ''input'' None 2 b3) (\<lambda>b4.
     then_err (rewrite_field cfg eng ''text'' None 2 b4) (\<lambda>b5.
     adapt_content cfg eng b5)) = Inr adapted"
    by (blast dest: then_err_Inr)
  from r3 obtain b4 where 4: "rewrite_field cfg eng ''input'' None 2 b3 = Inr b4"
    and r4: "then_err (rewrite_field cfg eng ''text'' None 2 b4) (\<lambda>b5.
     adapt_content cfg eng b5) = Inr adapted"
    by (blast dest: then_err_Inr)
  from r4 obtain b5 where 5: "rewrite_field cfg eng ''text'' None 2 b4 = Inr b5"
    and 6: "adapt_content cfg eng b5 = Inr adapted"
    by (blast dest: then_err_Inr)
  from 1 2 3 4 5 6 show ?thesis by (rule that)
qed



lemma window_fetch_rewritten:
  assumes "is_ai_request url" "body opts = Some (BodyString str)" "str \<noteq> []"
    "JSON_parse codec str = Some bd" "adapt_body cfg eng bd = Inr adapted"
  shows "window_fetch codec cfg eng (Resource url) (Some opts) =
     Inr (OriginalFetch (Resource url) (Some (opts\<lparr>body := Some (BodyString (JSON_stringify codec adapted))\<rparr>)))"
  using assms by (simp add: window_fetch_def process_body_def)



lemma adapt_body_text:
  assumes t: "get_prop bd ''text'' = Inr (Some (JStr tx))" and ne: "tx \<noteq> []"
    and a: "adapt_body cfg eng bd = Inr adapted"
  shows "get_prop adapted ''text'' =
     Inr (Some (JStr
       (if applyTagBlockRules cfg eng tx None 2 = [] then []
        else applyTagBlockRules cfg eng (applyTagBlockRules cfg eng tx None 2) None 2)))"
proof -
  from a obtain b1 b2 b3 b4 b5 where
    s1: "rewrite_field cfg eng ''prompt'' None 2 bd = Inr b1" and
    s2: "adapt_messages cfg eng b1 = Inr b2" and
    s3: "rewrite_field cfg eng ''text'' None 2 b2 = Inr b3" and
    s4: "rewrite_field cfg eng ''input'' None 2 b3 = Inr b4" and
    s5: "rewrite_field cfg eng ''text'' None 2 b4 = Inr b5" and
    s6: "adapt_content cfg eng b5 = Inr adapted"
    by (rule adapt_body_steps)
  let ?once = "applyTagBlockRules cfg eng tx None 2"
  have "get_prop b1 ''text'' = get_prop bd ''text''"
    by (rule rewrite_field_other [OF s1]) simp
  moreover have "get_prop b2 ''text'' = get_prop b1 ''text''"
    by (rule adapt_messages_other [OF s2]) simp
  ultimately have g2: "get_prop b2 ''text'' = Inr (Some (JStr tx))" using t by simp
  from s3 rewrite_field_JStr [OF g2, of cfg eng None 2] ne
  have "b3 = set_prop b2 ''text'' (JStr ?once)" by simp
  with g2 have g3: "get_prop b3 ''text'' = Inr (Some (JStr ?once))"
    by (simp add: get_prop_set_prop_same)
  have "get_prop b4 ''text'' = get_prop b3 ''text''"
    by (rule rewrite_field_other [OF s4]) simp
  with g3 have g4: "get_prop b4 ''text'' = Inr (Some (JStr ?once))" by simp
  from s5 rewrite_field_JStr [OF g4, of cfg eng None 2]
  have b5: "b5 = (if ?once = [] then b4
      else set_prop b4 ''text'' (JStr (applyTagBlockRules cfg eng ?once None 2)))" by simp
  have g5: "get_prop b5 ''text'' =
      Inr (Some (JStr (if ?once = [] then [] else applyTagBlockRules cfg eng ?once None 2)))"
  proof (cases "?once = []")
    case True
    with b5 g4 show ?thesis by simp
  next
    case False
    with b5 g4 show ?thesis by (simp add: get_prop_set_prop_same)
  qed
  have "get_prop adapted ''text'' = get_prop b5 ''text''"
    by (rule adapt_content_other [OF s6]) simp
  with g5 show ?thesis by simp
qed

text \<open>
  C10 (as amended). For an intercepted request whose body parses to a value with a string
  field \<open>text\<close> that is not empty, and whose adaptation raises no exception, the body sent
  is the serialisation of the adapted value, whose \<open>text\<close> is the rule engine applied
  twice in sequence, both times with null depth and the placement SystemPrompt, provided the
  first pass does not return the empty string; an empty result of the first pass is left as it
  is by the guard \<open>if (body.text)\<close>. So where the second pass changes the output of the
  first, the \<open>text\<close> sent differs from a single application.
\<close>

theorem adapt_body_text_twice:
  "is_ai_request url \<and> body opts = Some (BodyString str) \<and> str \<noteq> [] \<and>
   JSON_parse codec str = Some bd \<and> get_prop bd ''text'' = Inr (Some (JStr tx)) \<and> tx \<noteq> [] \<and>
   adapt_body cfg eng bd = Inr adapted \<longrightarrow>
     window_fetch codec cfg eng (Resource url) (Some opts) =
       Inr (OriginalFetch (Resource url) (Some (opts\<lparr>body := Some (BodyString (JSON_stringify codec adapted))\<rparr>))) \<and>
     (applyTagBlockRules cfg eng tx None SystemPrompt \<noteq> [] \<longrightarrow>
        get_prop adapted ''text'' =
          Inr (Some (JStr (applyTagBlockRules cfg eng
            (applyTagBlockRules cfg eng tx None SystemPrompt) None SystemPrompt)))) \<and>
     (applyTagBlockRules cfg eng tx None SystemPrompt = [] \<longrightarrow>
        get_prop adapted ''text'' = Inr (Some (JStr []))) \<and>
     (applyTagBlockRules cfg eng tx None SystemPrompt \<noteq> [] \<and>
      applyTagBlockRules cfg eng (applyTagBlockRules cfg eng tx None SystemPrompt) None SystemPrompt
        \<noteq> applyTagBlockRules cfg eng tx None SystemPrompt \<longrightarrow>
        get_prop adapted ''text'' \<noteq> Inr (Some (JStr (applyTagBlockRules cfg eng tx None SystemPrompt))))"
proof (intro impI)
  assume a: "is_ai_request url \<and> body opts = Some (BodyString str) \<and> str \<noteq> [] \<and>
   JSON_parse codec str = Some bd \<and> get_prop bd ''text'' = Inr (Some (JStr tx)) \<and> tx \<noteq> [] \<and>
   adapt_body cfg eng bd = Inr adapted"
  then have f: "is_ai_request url" "body opts = Some (BodyString str)" "str \<noteq> []"
    "JSON_parse codec str = Some bd" "adapt_body cfg eng bd = Inr adapted"
    and t: "get_prop bd ''text'' = Inr (Some (JStr tx))" "tx \<noteq> []"
    by simp_all
  have w: "window_fetch codec cfg eng (Resource url) (Some opts) =
       Inr (OriginalFetch (Resource url) (Some (opts\<lparr>body := Some (BodyString (JSON_stringify codec adapted))\<rparr>)))"
    by (rule window_fetch_rewritten [OF f])
  have g: "get_prop adapted ''text'' =
     Inr (Some (JStr
       (if applyTagBlockRules cfg eng tx None 2 = [] then []
        else applyTagBlockRules cfg eng (applyTagBlockRules cfg eng tx None 2) None 2)))"
    by (rule adapt_body_text [OF t f(5)])
  from w g show "window_fetch codec cfg eng (Resource url) (Some opts) =
       Inr (OriginalFetch (Resource url) (Some (opts\<lparr>body := Some (BodyString (JSON_stringify codec adapted))\<rparr>))) \<and>
     (applyTagBlockRules cfg eng tx None SystemPrompt \<noteq> [] \<longrightarrow>
        get_prop adapted ''text'' =
          Inr (Some (JStr (applyTagBlockRules cfg eng
            (applyTagBlockRules cfg eng tx None SystemPrompt) None SystemPrompt)))) \<and>
     (applyTagBlockRules cfg eng tx None SystemPrompt = [] \<longrightarrow>
        get_prop adapted ''text'' = Inr (Some (JStr []))) \<and>
     (applyTagBlockRules cfg eng tx None SystemPrompt \<noteq> [] \<and>
      applyTagBlockRules cfg eng (applyTagBlockRules cfg eng tx None SystemPrompt) None SystemPrompt
        \<noteq> applyTagBlockRules cfg eng tx None SystemPrompt \<longrightarrow>
        get_prop adapted ''text'' \<noteq> Inr (Some (JStr (applyTagBlockRules cfg eng tx None SystemPrompt))))"
    by (simp add: SystemPrompt_def)
qed





lemma is_ai_request_url_chat: "is_ai_request url_chat"
  by code_simp





theorem adapt_body_text_twice_witness:
  "window_fetch codec_chat strip_a rejecting_engine (Resource url_chat)
     (Some \<lparr>body = Some (BodyString (text_text ''<a<a></a>></a>''))\<rparr>) =
   Inr (OriginalFetch (Resource url_chat) (Some \<lparr>body = Some (BodyString (text_text []))\<rparr>)) \<and>
   get_prop (text_body []) ''text'' =
     Inr (Some (JStr (applyTagBlockRules strip_a rejecting_engine
       (applyTagBlockRules strip_a rejecting_engine ''<a<a></a>></a>'' None SystemPrompt)
       None SystemPrompt))) \<and>
   get_prop (text_body []) ''text'' \<noteq>
     Inr (Some (JStr (applyTagBlockRules strip_a rejecting_engine ''<a<a></a>></a>'' None
       SystemPrompt))) \<and>
   window_fetch codec_chat strip_a rejecting_engine (Resource url_chat)
     (Some \<lparr>body = Some (BodyString (text_text ''<a>x</a>''))\<rparr>) =
   Inr (OriginalFetch (Resource url_chat) (Some \<lparr>body = Some (BodyString (text_text []))\<rparr>))"
proof -
  note T = adapt_body_text_twice [where url = url_chat and codec = codec_chat
      and cfg = strip_a and eng = rejecting_engine
      and str = "text_text ''<a<a></a>></a>''"
      and opts = "\<lparr>body = Some (BodyString (text_text ''<a<a></a>></a>''))\<rparr>"
      and bd = "text_body ''<a<a></a>></a>''" and tx = "''<a<a></a>></a>''"
      and adapted = "text_body []"]
  note U = adapt_body_text_twice [where url = url_chat and codec = codec_chat
      and cfg = strip_a and eng = rejecting_engine
      and str = "text_text ''<a>x</a>''"
      and opts = "\<lparr>body = Some (BodyString (text_text ''<a>x</a>''))\<rparr>"
      and bd = "text_body ''<a>x</a>''" and tx = "''<a>x</a>''"
      and adapted = "text_body []"]
  have h1: "is_ai_request url_chat" by (rule is_ai_request_url_chat)
  have h2: "body \<lparr>body = Some (BodyString str)\<rparr> = Some (BodyString str)" for str by simp
  have h3: "text_text ''<a<a></a>></a>'' \<noteq> []" "text_text ''<a>x</a>'' \<noteq> []"
    by (simp_all add: text_text_def)
  have h4: "JSON_parse codec_chat (text_text ''<a<a></a>></a>'') = Some (text_body ''<a<a></a>></a>'')"
    "JSON_parse codec_chat (text_text ''<a>x</a>'') = Some (text_body ''<a>x</a>'')"
    by code_simp+
  have h5: "get_prop (text_body ''<a<a></a>></a>'') ''text'' = Inr (Some (JStr ''<a<a></a>></a>''))"
    "get_prop (text_body ''<a>x</a>'') ''text'' = Inr (Some (JStr ''<a>x</a>''))"
    by (simp_all add: text_body_def get_prop_def)
  have h6: "''<a<a></a>></a>'' \<noteq> []" "''<a>x</a>'' \<noteq> []" by simp_all
  have h7: "adapt_body strip_a rejecting_engine (text_body ''<a<a></a>></a>'') = Inr (text_body [])"
    "adapt_body strip_a rejecting_engine (text_body ''<a>x</a>'') = Inr (text_body [])"
    by code_simp+
  have h8: "applyTagBlockRules strip_a rejecting_engine ''<a<a></a>></a>'' None SystemPrompt \<noteq> []"
    by code_simp
  have h9: "applyTagBlockRules strip_a rejecting_engine
       (applyTagBlockRules strip_a rejecting_engine ''<a<a></a>></a>'' None SystemPrompt)
       None SystemPrompt
     \<noteq> applyTagBlockRules strip_a rejecting_engine ''<a<a></a>></a>'' None SystemPrompt"
    by code_simp
  have h10: "applyTagBlockRules strip_a rejecting_engine ''<a>x</a>'' None SystemPrompt = []"
    by code_simp
  have s: "JSON_stringify codec_chat (text_body []) = text_text []" by code_simp
  from T h1 h2 h3 h4 h5 h6 h7 h8 h9
  have t1: "window_fetch codec_chat strip_a rejecting_engine (Resource url_chat)
     (Some \<lparr>body = Some (BodyString (text_text ''<a<a></a>></a>''))\<rparr>) =
     Inr (OriginalFetch (Resource url_chat)
       (Some (\<lparr>body = Some (BodyString (text_text ''<a<a></a>></a>''))\<rparr>
          \<lparr>body := Some (BodyString (JSON_stringify codec_chat (text_body [])))\<rparr>)))"
    and t2: "get_prop (text_body []) ''text'' =
     Inr (Some (JStr (applyTagBlockRules strip_a rejecting_engine
       (applyTagBlockRules strip_a rejecting_engine ''<a<a></a>></a>'' None SystemPrompt)
       None SystemPrompt)))"
    and t3: "get_prop (text_body []) ''text'' \<noteq>
     Inr (Some (JStr (applyTagBlockRules strip_a rejecting_engine ''<a<a></a>></a>'' None
       SystemPrompt)))"
    by blast+
  from U h1 h2 h3 h4 h5 h6 h7 h10
  have u1: "window_fetch codec_chat strip_a rejecting_engine (Resource url_chat)
     (Some \<lparr>body = Some (BodyString (text_text ''<a>x</a>''))\<rparr>) =
     Inr (OriginalFetch (Resource url_chat)
       (Some (\<lparr>body = Some (BodyString (text_text ''<a>x</a>''))\<rparr>
          \<lparr>body := Some (BodyString (JSON_stringify codec_chat (text_body [])))\<rparr>)))"
    by blast
  from t1 t2 t3 u1 show ?thesis by (simp add: s)
qed

text \<open>
  A \<open>null\<close> part in \<open>content\<close> makes the adaptation throw after \<open>text\<close> has been
  handled, so \<open>text\<close> is sent as it was; and when the first pass returns the empty text
  there is no second pass, although a second application would give \<open>X\<close>.
\<close>

theorem adapt_body_text_twice_counterexample:
  "adapt_body strip_a rejecting_engine
     (JObj [(''text'', JStr ''<a>x</a>''), (''content'', JArr [JNull])]) = Inl TypeError \<and>
   adapt_body (settings_of [imported_rule, tag_rule ''Xc'' ''dX'' [] [2]]) rejecting_engine
     (text_body ''cd'') = Inr (text_body []) \<and>
   applyTagBlockRules (settings_of [imported_rule, tag_rule ''Xc'' ''dX'' [] [2]]) rejecting_engine
     (applyTagBlockRules (settings_of [imported_rule, tag_rule ''Xc'' ''dX'' [] [2]])
        rejecting_engine ''cd'' None SystemPrompt) None SystemPrompt = ''X''"
  by code_simp

end
